theory Spec2Isabelle
  imports Complex_Main "HOL-Library.Word"
begin

section \<open>Length-prefixed framing over a stream socket\<close>

text \<open>
  The telemetry producer and consumer exchange JSON messages over TCP. Every message is a
  4-byte unsigned big-endian length followed by that many payload bytes
  (\<^verbatim>\<open>struct.pack(">I", len(b))\<close> then \<^verbatim>\<open>sock.sendall(header + b)\<close>).

  A connected socket is modelled by what its reads can still deliver: the list of chunks
  the transport will hand over, in order. \<^verbatim>\<open>sock.recv(n)\<close> returns at most \<open>n\<close> bytes of
  the first chunk and leaves the rest of that chunk for the next call; when nothing is
  left the peer has closed and \<^verbatim>\<open>recv\<close> returns \<^verbatim>\<open>b""\<close>.
\<close>

type_synonym byte = "8 word"

type_synonym sock = "byte list list"

text \<open>The Python exceptions that the modelled functions raise, with their messages.\<close>

datatype exn =
    ConnectionError string
  | OSError string
  | StructError
  | ValueError string
  | TypeError string
  | AttributeError string
  | StorageError string

fun recv :: "nat \<Rightarrow> sock \<Rightarrow> byte list \<times> sock" where
  "recv n [] = ([], [])"
| "recv n (c # cs) = (take n c, if drop n c = [] then cs else drop n c # cs)"

text \<open>
  \<^verbatim>\<open>struct.pack(">I", n)\<close> raises \<^verbatim>\<open>struct.error\<close> unless \<open>0 \<le> n < 2^32\<close>;
  \<^verbatim>\<open>struct.unpack(">I", b)\<close> raises it unless \<open>b\<close> has exactly four bytes.
\<close>

definition pack_I :: "nat \<Rightarrow> exn + byte list" where
  "pack_I n =
     (if n < 2 ^ 32
      then Inr [of_nat (n div 2 ^ 24), of_nat (n div 2 ^ 16), of_nat (n div 2 ^ 8), of_nat n]
      else Inl StructError)"

fun unpack_I :: "byte list \<Rightarrow> exn + nat" where
  "unpack_I [a, b, c, d] = Inr (unat a * 2 ^ 24 + unat b * 2 ^ 16 + unat c * 2 ^ 8 + unat d)"
| "unpack_I _ = Inl StructError"

text \<open>
  The read loop shared by \<^verbatim>\<open>recv_exact\<close> (both consumers) and by the payload loop of
  \<^verbatim>\<open>recv_frame\<close> (producers):
  \<^verbatim>\<open>
    while len(buf) < n:
        chunk = sock.recv(n - len(buf))
        if not chunk:
            raise ConnectionError(msg)
        buf += chunk
  \<close>
  The two occurrences differ only in the message of the exception.
\<close>

function read_loop :: "string \<Rightarrow> nat \<Rightarrow> byte list \<Rightarrow> sock \<Rightarrow> exn + (byte list \<times> sock)" where
  "read_loop msg n buf s =
     (if length buf < n
      then (let r = recv (n - length buf) s
            in if fst r = [] then Inl (ConnectionError msg)
               else read_loop msg n (buf @ fst r) (snd r))
      else Inr (buf, s))"
  by pat_completeness auto
termination
proof (relation "measure (\<lambda>(msg, n, buf, s). n - length buf)")
  show "wf (measure (\<lambda>(msg, n, buf, s). n - length buf))" by simp
next
  fix msg :: string and n :: nat and buf :: "byte list" and s :: sock and x
  assume lt: "length buf < n" and x: "x = recv (n - length buf) s" and ne: "fst x \<noteq> []"
  from ne have "0 < length (fst x)" by simp
  with lt have "n - (length buf + length (fst x)) < n - length buf" by arith
  then show "((msg, n, buf @ fst x, snd x), (msg, n, buf, s))
        \<in> measure (\<lambda>(msg, n, buf, s). n - length buf)" by simp
qed

declare read_loop.simps [simp del]

definition recv_exact :: "sock \<Rightarrow> nat \<Rightarrow> exn + (byte list \<times> sock)" where
  "recv_exact s n = read_loop ''Socket closed while reading'' n [] s"

text \<open>
  The read half of one iteration of \<^verbatim>\<open>handle_client\<close> (consumer_tcp.py and
  consumer_tcp_threaded.py, identical there):
  \<^verbatim>\<open>
    header = conn.recv(4)
    if not header: break
    if len(header) < 4:
        header += recv_exact(conn, 4 - len(header))
    msglen = struct.unpack(">I", header)[0]
    payload = recv_exact(conn, msglen)
  \<close>
  \<open>Closed\<close> is the \<^verbatim>\<open>break\<close>, \<open>Raised\<close> an exception leaving the loop, \<open>Frame\<close> a
  payload together with what the socket still holds.
\<close>

datatype read_result = Closed | Raised exn | Frame "byte list" sock

definition read_frame :: "sock \<Rightarrow> read_result" where
  "read_frame s =
     (let r = recv 4 s; header = fst r; s1 = snd r
      in if header = [] then Closed
         else case (if length header < 4
                    then (case recv_exact s1 (4 - length header) of
                            Inl e \<Rightarrow> Inl e
                          | Inr (extra, s2) \<Rightarrow> Inr (header @ extra, s2))
                    else Inr (header, s1)) of
                Inl e \<Rightarrow> Raised e
              | Inr (header', s2) \<Rightarrow>
                  (case unpack_I header' of
                     Inl e \<Rightarrow> Raised e
                   | Inr msglen \<Rightarrow>
                       (case recv_exact s2 msglen of
                          Inl e \<Rightarrow> Raised e
                        | Inr (payload, s3) \<Rightarrow> Frame payload s3)))"

text \<open>
  \<^verbatim>\<open>recv_frame\<close> of producer_periodic.py (and, identically, tcp/producer_tcp.py). The
  header is completed by a single further \<^verbatim>\<open>recv\<close>, not by a loop:
  \<^verbatim>\<open>
    header = sock.recv(4)
    if not header: raise ConnectionError("connection closed by server")
    if len(header) < 4:
        needed = 4 - len(header)
        header += sock.recv(needed)
    msglen = struct.unpack(">I", header)[0]
    data = b""
    while len(data) < msglen: ...
    return json.loads(data.decode("utf-8"))
  \<close>
  \<open>loads\<close> stands for \<^verbatim>\<open>json.loads(data.decode("utf-8"))\<close>, a library function: it
  returns the decoded object or raises.
\<close>

definition recv_frame :: "(byte list \<Rightarrow> exn + 'o) \<Rightarrow> sock \<Rightarrow> exn + ('o \<times> sock)" where
  "recv_frame loads s =
     (let r = recv 4 s; header = fst r; s1 = snd r
      in if header = [] then Inl (ConnectionError ''connection closed by server'')
         else let hs = (if length header < 4
                        then (let r2 = recv (4 - length header) s1
                              in (header @ fst r2, snd r2))
                        else (header, s1))
              in case unpack_I (fst hs) of
                   Inl e \<Rightarrow> Inl e
                 | Inr msglen \<Rightarrow>
                     (case read_loop ''server closed mid-frame'' msglen [] (snd hs) of
                        Inl e \<Rightarrow> Inl e
                      | Inr (data, s3) \<Rightarrow>
                          (case loads data of
                             Inl e \<Rightarrow> Inl e
                           | Inr obj \<Rightarrow> Inr (obj, s3))))"

text \<open>
  \<^verbatim>\<open>send_frame\<close> (producers) and \<^verbatim>\<open>send_response\<close> (consumers) have the same body:
  \<^verbatim>\<open>
    b = json.dumps(obj, default=str).encode("utf-8")
    header = struct.pack(">I", len(b))
    sock.sendall(header + b)
  \<close>
  \<open>encode_frame\<close> is the byte string handed to \<^verbatim>\<open>sendall\<close>; \<open>dumps\<close> stands for
  \<^verbatim>\<open>json.dumps(obj, default=str).encode("utf-8")\<close>.
\<close>

definition encode_frame :: "('o \<Rightarrow> byte list) \<Rightarrow> 'o \<Rightarrow> exn + byte list" where
  "encode_frame dumps obj =
     (let b = dumps obj
      in case pack_I (length b) of
           Inl e \<Rightarrow> Inl e
         | Inr header \<Rightarrow> Inr (header @ b))"


section \<open>Documents and the library functions they pass through\<close>

text \<open>
  The values of a decoded document: what \<^verbatim>\<open>json.loads\<close> returns (\<^verbatim>\<open>None\<close>, \<^verbatim>\<open>bool\<close>,
  \<^verbatim>\<open>int\<close>, \<^verbatim>\<open>float\<close>, \<^verbatim>\<open>str\<close>, \<^verbatim>\<open>list\<close>, \<^verbatim>\<open>dict\<close>), and the
  \<^verbatim>\<open>datetime\<close> objects the consumer adds before an update. Floating-point numbers are
  kept abstract (\<open>'f\<close>): no definition below looks inside one. A \<^verbatim>\<open>dict\<close> keeps its
  insertion order, so it is a list of key-value pairs.
\<close>

datatype 'f pyval =
    PNone
  | PBool bool
  | PInt int
  | PFloat 'f
  | PStr string
  | PList "'f pyval list"
  | PDict "(string \<times> 'f pyval) list"
  | PDatetime nat

type_synonym 'f doc = "(string \<times> 'f pyval) list"

text \<open>
  Functions of the Python runtime and of its standard library that the code calls. They are
  parameters of the model: \<open>json_loads b\<close> is \<^verbatim>\<open>json.loads(b.decode("utf-8"))\<close>,
  \<open>json_dumps v\<close> is \<^verbatim>\<open>json.dumps(v, default=str).encode("utf-8")\<close>, \<open>isoformat t\<close> is
  \<^verbatim>\<open>datetime.isoformat()\<close> of the clock reading \<open>t\<close>, \<open>str_oid i\<close> is \<^verbatim>\<open>str(i)\<close> of a
  storage identifier, \<open>py_sum\<close> is the builtin \<^verbatim>\<open>sum\<close>, \<open>py_truediv s n\<close> is \<^verbatim>\<open>s / n\<close>,
  \<open>py_int\<close> and \<open>py_float\<close> are \<^verbatim>\<open>int(s)\<close> and \<^verbatim>\<open>float(s)\<close> on a string (\<open>None\<close> when
  they raise \<^verbatim>\<open>ValueError\<close>).
\<close>

record 'f runtime =
  json_loads :: "byte list \<Rightarrow> exn + 'f pyval"
  json_dumps :: "'f pyval \<Rightarrow> byte list"
  isoformat :: "nat \<Rightarrow> string"
  str_oid :: "nat \<Rightarrow> string"
  py_sum :: "'f pyval list \<Rightarrow> exn + 'f pyval"
  py_truediv :: "'f pyval \<Rightarrow> nat \<Rightarrow> exn + 'f pyval"
  py_int :: "string \<Rightarrow> int option"
  py_float :: "string \<Rightarrow> 'f option"

text \<open>\<^verbatim>\<open>str(e)\<close> of an exception.\<close>

fun exn_str :: "exn \<Rightarrow> string" where
  "exn_str (ConnectionError m) = m"
| "exn_str (OSError m) = m"
| "exn_str StructError = ''struct.error''"
| "exn_str (ValueError m) = m"
| "exn_str (TypeError m) = m"
| "exn_str (AttributeError m) = m"
| "exn_str (StorageError m) = m"

text \<open>\<^verbatim>\<open>d[k] = v\<close> on a dict: an existing key keeps its place, a new one goes last.\<close>

fun dict_set :: "(string \<times> 'v) list \<Rightarrow> string \<Rightarrow> 'v \<Rightarrow> (string \<times> 'v) list" where
  "dict_set [] k v = [(k, v)]"
| "dict_set ((k', v') # kvs) k v =
     (if k' = k then (k, v) # kvs else (k', v') # dict_set kvs k v)"

text \<open>
  \<^verbatim>\<open>doc[k] = v\<close> on whatever \<^verbatim>\<open>json.loads\<close> returned: only a dict accepts a string key; a
  list, a string, a number, a boolean and \<^verbatim>\<open>None\<close> raise \<^verbatim>\<open>TypeError\<close>.
\<close>

fun setitem :: "'f pyval \<Rightarrow> string \<Rightarrow> 'f pyval \<Rightarrow> exn + 'f doc" where
  "setitem (PDict kvs) k v = Inr (dict_set kvs k v)"
| "setitem (PList vs) k v = Inl (TypeError ''list indices must be integers or slices, not str'')"
| "setitem _ k v = Inl (TypeError ''object does not support item assignment'')"

subsection \<open>Enrichment: \<^verbatim>\<open>process_document\<close>\<close>

definition startswith_gen :: "string \<Rightarrow> bool" where
  "startswith_gen k = (take 4 k = ''gen_'')"

text \<open>\<^verbatim>\<open>isinstance(v, (int, float))\<close>; \<^verbatim>\<open>bool\<close> is a subclass of \<^verbatim>\<open>int\<close>.\<close>

fun is_int_or_float :: "'f pyval \<Rightarrow> bool" where
  "is_int_or_float (PBool _) = True"
| "is_int_or_float (PInt _) = True"
| "is_int_or_float (PFloat _) = True"
| "is_int_or_float _ = False"

text \<open>
  The tail shared by both versions of \<^verbatim>\<open>process_document\<close>, from the list of numbers on:
  \<^verbatim>\<open>
    s = sum(nums) if nums else 0
    avg = (s / len(nums)) if nums else None
    return {"numeric_count": len(nums), "numeric_sum": s, "numeric_avg": avg}
  \<close>
\<close>

definition summarise :: "'f runtime \<Rightarrow> 'f pyval list \<Rightarrow> exn + 'f pyval" where
  "summarise rt nums =
     (if nums = []
      then Inr (PDict [(''numeric_count'', PInt 0), (''numeric_sum'', PInt 0),
                       (''numeric_avg'', PNone)])
      else case py_sum rt nums of
             Inl e \<Rightarrow> Inl e
           | Inr s \<Rightarrow>
              (case py_truediv rt s (length nums) of
                 Inl e \<Rightarrow> Inl e
               | Inr avg \<Rightarrow>
                   Inr (PDict [(''numeric_count'', PInt (int (length nums))),
                               (''numeric_sum'', s), (''numeric_avg'', avg)])))"

text \<open>
  consumer_tcp.py and consumer_tcp_threaded.py:
  \<^verbatim>\<open>nums = [v for k, v in doc.items() if k.startswith("gen_") and isinstance(v, (int, float))]\<close>
\<close>

definition process_document :: "'f runtime \<Rightarrow> 'f doc \<Rightarrow> exn + 'f pyval" where
  "process_document rt d =
     summarise rt (map snd (filter (\<lambda>(k, v). startswith_gen k \<and> is_int_or_float v) d))"

text \<open>
  tcp/consumer.py converts every value with \<^verbatim>\<open>to_number\<close> first. \<^verbatim>\<open>int(v)\<close> and
  \<^verbatim>\<open>float(v)\<close> raise \<^verbatim>\<open>TypeError\<close> on a list, a dict and a datetime, so these give
  \<^verbatim>\<open>None\<close>. \<^verbatim>\<open>str.isspace\<close> on the code points below 256 holds for 9 to 13, 28 to 32, 133
  and 160.
\<close>

definition py_isspace :: "char \<Rightarrow> bool" where
  "py_isspace c = ((of_char c :: nat) \<in> {9, 10, 11, 12, 13, 28, 29, 30, 31, 32, 133, 160})"

fun to_number :: "'f runtime \<Rightarrow> 'f pyval \<Rightarrow> 'f pyval option" where
  "to_number rt (PBool b) = Some (PBool b)"
| "to_number rt (PInt i) = Some (PInt i)"
| "to_number rt (PFloat x) = Some (PFloat x)"
| "to_number rt PNone = None"
| "to_number rt (PStr t) =
     (if list_all py_isspace t then None
      else if CHR ''.'' \<in> set t
      then map_option PFloat (py_float rt t)
      else (case py_int rt t of
              Some i \<Rightarrow> Some (PInt i)
            | None \<Rightarrow> map_option PFloat (py_float rt t)))"
| "to_number rt _ = None"

definition process_document_poll :: "'f runtime \<Rightarrow> 'f doc \<Rightarrow> exn + 'f pyval" where
  "process_document_poll rt d =
     summarise rt
       (List.map_filter (\<lambda>(k, v). if startswith_gen k then to_number rt v else None) d)"


section \<open>The ingestion server's connection handler\<close>

subsection \<open>The storage collaborator\<close>

text \<open>
  Modelled from the spec: the document store behind \<^verbatim>\<open>db_coll\<close> (a pymongo collection,
  not part of the repository). The spec gives its interface as \<open>insert(record) -> id\<close> and
  \<open>update(id, patch)\<close>, either of which may fail. The model keeps the stored documents
  with their identifiers, assigns identifiers from a counter, and takes the outcome of each
  coming operation from a script: \<open>Some reason\<close> makes the operation raise with that
  reason and leave the store as it is, \<open>None\<close> (or an exhausted script) lets it succeed.
\<close>

record 'f collection =
  stored :: "(nat \<times> 'f doc) list"
  next_id :: nat
  faults :: "string option list"

definition insert_one :: "'f collection \<Rightarrow> 'f doc \<Rightarrow> (exn + nat) \<times> 'f collection" where
  "insert_one c d =
     (case faults c of
        Some reason # rest \<Rightarrow> (Inl (StorageError reason), c\<lparr>faults := rest\<rparr>)
      | _ \<Rightarrow> (Inr (next_id c),
              c\<lparr>stored := stored c @ [(next_id c, d)],
                next_id := Suc (next_id c),
                faults := tl (faults c)\<rparr>))"

definition update_one :: "'f collection \<Rightarrow> nat \<Rightarrow> 'f doc \<Rightarrow> (exn + unit) \<times> 'f collection" where
  "update_one c i patch =
     (case faults c of
        Some reason # rest \<Rightarrow> (Inl (StorageError reason), c\<lparr>faults := rest\<rparr>)
      | _ \<Rightarrow> (Inr (),
              c\<lparr>stored := map (\<lambda>(j, d). if j = i
                                        then (j, fold (\<lambda>(k, v) d'. dict_set d' k v) patch d)
                                        else (j, d)) (stored c),
                faults := tl (faults c)\<rparr>))"

subsection \<open>One connection\<close>

text \<open>
  The state of one run of \<^verbatim>\<open>handle_client\<close>: what the socket can still deliver, the bytes
  written to it so far and the objects they encode (in the order \<^verbatim>\<open>send_response\<close> was
  called), whether the peer has gone (\<^verbatim>\<open>sendall\<close> then raises \<^verbatim>\<open>BrokenPipeError\<close>, a
  \<^verbatim>\<open>ConnectionError\<close>), whether \<^verbatim>\<open>conn.close()\<close> was called, the collection, and the
  clock read by \<^verbatim>\<open>datetime.utcnow()\<close>.
\<close>

record 'f conn =
  inbound :: sock
  outbound :: "byte list"
  replies :: "'f pyval list"
  peer_gone :: bool
  closed :: bool
  coll :: "'f collection"
  clock :: nat

definition send_response :: "'f runtime \<Rightarrow> 'f conn \<Rightarrow> 'f pyval \<Rightarrow> exn + 'f conn" where
  "send_response rt st obj =
     (case encode_frame (json_dumps rt) obj of
        Inl e \<Rightarrow> Inl e
      | Inr bytes \<Rightarrow>
          if peer_gone st then Inl (ConnectionError ''Broken pipe'')
          else Inr (st\<lparr>outbound := outbound st @ bytes, replies := replies st @ [obj]\<rparr>))"

definition ack_ok :: "'f runtime \<Rightarrow> nat \<Rightarrow> 'f pyval" where
  "ack_ok rt i = PDict [(''status'', PStr ''ok''), (''id'', PStr (str_oid rt i))]"

definition ack_error :: "string \<Rightarrow> 'f pyval" where
  "ack_error reason = PDict [(''status'', PStr ''error''), (''reason'', PStr reason)]"

text \<open>
  The storage block of the loop body, which always ends with an acknowledgement:
  \<^verbatim>\<open>
    try:
        insert_result = db_coll.insert_one(doc)
        proc_res = process_document(doc)
        db_coll.update_one({"_id": insert_result.inserted_id},
            {"$set": {"_processed": True, "_processedAt": datetime.utcnow(),
                      "_processingResult": proc_res}})
        ack = {"status": "ok", "id": str(insert_result.inserted_id)}
    except Exception as e:
        ack = {"status": "error", "reason": str(e)}
  \<close>
\<close>

definition store_document :: "'f runtime \<Rightarrow> 'f conn \<Rightarrow> 'f doc \<Rightarrow> 'f pyval \<times> 'f conn" where
  "store_document rt st d =
     (case insert_one (coll st) d of
        (Inl e, c1) \<Rightarrow> (ack_error (exn_str e), st\<lparr>coll := c1\<rparr>)
      | (Inr i, c1) \<Rightarrow>
          (case process_document rt d of
             Inl e \<Rightarrow> (ack_error (exn_str e), st\<lparr>coll := c1\<rparr>)
           | Inr proc_res \<Rightarrow>
               (case update_one c1 i [(''_processed'', PBool True),
                                      (''_processedAt'', PDatetime (clock st)),
                                      (''_processingResult'', proc_res)] of
                  (Inl e, c2) \<Rightarrow> (ack_error (exn_str e), st\<lparr>coll := c2, clock := Suc (clock st)\<rparr>)
                | (Inr u, c2) \<Rightarrow> (ack_ok rt i, st\<lparr>coll := c2, clock := Suc (clock st)\<rparr>))))"

text \<open>
  How a run of \<^verbatim>\<open>handle_client\<close> ends: by the \<^verbatim>\<open>break\<close> on an empty first read, in the
  \<^verbatim>\<open>except ConnectionError\<close> clause, or in the \<^verbatim>\<open>except Exception\<close> clause (which in
  consumer_tcp.py is the only place that closes the connection).
\<close>

datatype outcome = PeerClosed | ConnectionFault exn | Unexpected exn

fun leave :: "exn \<Rightarrow> 'f conn \<Rightarrow> outcome \<times> 'f conn" where
  "leave (ConnectionError m) st = (ConnectionFault (ConnectionError m), st)"
| "leave e st = (Unexpected e, st\<lparr>closed := True\<rparr>)"

text \<open>
  One iteration of the \<^verbatim>\<open>while True\<close> loop: \<open>Inl\<close> when the loop is left, \<open>Inr\<close> with the
  state for the next iteration (\<^verbatim>\<open>continue\<close> after an invalid payload, or the end of the
  body).
\<close>

definition handle_frame :: "'f runtime \<Rightarrow> 'f conn \<Rightarrow> byte list \<Rightarrow> (outcome \<times> 'f conn) + 'f conn" where
  "handle_frame rt st payload =
     (case json_loads rt payload of
        Inl e \<Rightarrow>
          (case send_response rt st (ack_error (''invalid json: '' @ exn_str e)) of
             Inl e' \<Rightarrow> Inl (leave e' st)
           | Inr st' \<Rightarrow> Inr st')
      | Inr v \<Rightarrow>
          (case setitem v ''_receivedAt'' (PStr (isoformat rt (clock st))) of
             Inl e \<Rightarrow> Inl (leave e st)
           | Inr d \<Rightarrow>
               (case store_document rt (st\<lparr>clock := Suc (clock st)\<rparr>) d of
                  (ack, st1) \<Rightarrow>
                    (case send_response rt st1 ack of
                       Inl e' \<Rightarrow> Inl (leave e' st1)
                     | Inr st2 \<Rightarrow> Inr st2))))"

definition iteration :: "'f runtime \<Rightarrow> 'f conn \<Rightarrow> (outcome \<times> 'f conn) + 'f conn" where
  "iteration rt st =
     (case read_frame (inbound st) of
        Closed \<Rightarrow> Inl (PeerClosed, st\<lparr>inbound := snd (recv 4 (inbound st))\<rparr>)
      | Raised e \<Rightarrow> Inl (leave e (st\<lparr>inbound := []\<rparr>))
      | Frame payload s' \<Rightarrow> handle_frame rt (st\<lparr>inbound := s'\<rparr>) payload)"


text \<open>
  \<^verbatim>\<open>handle_client\<close> of consumer_tcp.py: the loop, run until it is left. Each further
  iteration has taken at least one byte from the socket, so the loop ends on every finite
  stream.
\<close>

function handle_client :: "'f runtime \<Rightarrow> 'f conn \<Rightarrow> outcome \<times> 'f conn" where
  "handle_client rt st =
     (case iteration rt st of
        Inl r \<Rightarrow> r
      | Inr st' \<Rightarrow> handle_client rt st')"
  by pat_completeness auto

text \<open>
  consumer_tcp_threaded.py runs the same loop and closes the connection in a
  \<^verbatim>\<open>finally\<close> clause, however the loop was left.
\<close>

definition handle_client_threaded :: "'f runtime \<Rightarrow> 'f conn \<Rightarrow> outcome \<times> 'f conn" where
  "handle_client_threaded rt st =
     (case handle_client rt st of (out, st') \<Rightarrow> (out, st'\<lparr>closed := True\<rparr>))"

section \<open>Reading from a socket\<close>

text \<open>
  A stream whose every chunk holds at least one byte: a read on an open connection
  returns data, and only the end of the stream reads as empty.
\<close>

definition wf_sock :: "sock \<Rightarrow> bool" where
  "wf_sock s = ([] \<notin> set s)"

lemma recv_concat: "fst (recv n s) @ concat (snd (recv n s)) = concat s"
  by (cases s) auto

lemma recv_length: "length (fst (recv n s)) \<le> n"
  by (cases s) auto

lemma recv_fst: "wf_sock s \<Longrightarrow> fst (recv n s) = take n (hd (s @ [[]]))"
  by (cases s) auto

lemma recv_wf: "wf_sock s \<Longrightarrow> wf_sock (snd (recv n s))"
  by (cases s) (auto simp: wf_sock_def)

lemma recv_nonempty: "wf_sock s \<Longrightarrow> s \<noteq> [] \<Longrightarrow> 0 < n \<Longrightarrow> fst (recv n s) \<noteq> []"
  by (cases s) (auto simp: wf_sock_def)

lemma recv_empty_iff: "wf_sock s \<Longrightarrow> 0 < n \<Longrightarrow> fst (recv n s) = [] \<longleftrightarrow> concat s = []"
  by (cases s) (auto simp: wf_sock_def)

lemma read_loop_complete:
  "wf_sock s \<Longrightarrow> length buf \<le> n \<Longrightarrow> n \<le> length buf + length (concat s) \<Longrightarrow>
   \<exists>s'. read_loop msg n buf s = Inr (buf @ take (n - length buf) (concat s), s')
        \<and> concat s' = drop (n - length buf) (concat s) \<and> wf_sock s'"
proof (induction msg n buf s rule: read_loop.induct)
  case (1 msg n buf s)
  show ?case
  proof (cases "length buf < n")
    case False
    with "1.prems" show ?thesis by (simp add: read_loop.simps)
  next
    case True
    define r where "r = recv (n - length buf) s"
    have cat: "fst r @ concat (snd r) = concat s" by (simp add: r_def recv_concat)
    have len: "length (fst r) \<le> n - length buf" by (simp add: r_def recv_length)
    from True "1.prems" have "length (concat s) \<noteq> 0" by arith
    then have "concat s \<noteq> []" by (metis list.size(3))
    with "1.prems"(1) True have ne: "fst r \<noteq> []"
      by (simp add: r_def recv_empty_iff)
    have wf': "wf_sock (snd r)" using "1.prems"(1) by (simp add: r_def recv_wf)
    have l1: "length (buf @ fst r) \<le> n" using len True by simp
    have l2: "n \<le> length (buf @ fst r) + length (concat (snd r))"
      using "1.prems"(3) cat by (metis append.assoc length_append)
    from "1.IH"[OF True r_def ne wf' l1 l2]
    obtain s' where s': "read_loop msg n (buf @ fst r) (snd r)
          = Inr ((buf @ fst r) @ take (n - length (buf @ fst r)) (concat (snd r)), s')"
          "concat s' = drop (n - length (buf @ fst r)) (concat (snd r))" "wf_sock s'"
      by blast
    have t: "take (n - length buf) (concat s) = fst r @ take (n - length (buf @ fst r)) (concat (snd r))"
      using len by (simp add: cat[symmetric])
    have d: "drop (n - length buf) (concat s) = drop (n - length (buf @ fst r)) (concat (snd r))"
      using len by (simp add: cat[symmetric])
    have "read_loop msg n buf s = read_loop msg n (buf @ fst r) (snd r)"
      using True ne by (subst read_loop.simps) (simp add: r_def Let_def)
    with s' t d show ?thesis by simp
  qed
qed

lemma read_loop_truncated:
  "wf_sock s \<Longrightarrow> length buf + length (concat s) < n \<Longrightarrow>
   read_loop msg n buf s = Inl (ConnectionError msg)"
proof (induction msg n buf s rule: read_loop.induct)
  case (1 msg n buf s)
  from "1.prems" have lt: "length buf < n" by simp
  define r where "r = recv (n - length buf) s"
  have cat: "fst r @ concat (snd r) = concat s" by (simp add: r_def recv_concat)
  show ?case
  proof (cases "fst r = []")
    case True
    then show ?thesis using lt by (subst read_loop.simps) (simp add: r_def Let_def)
  next
    case False
    have wf': "wf_sock (snd r)" using "1.prems"(1) by (simp add: r_def recv_wf)
    have l2: "length (buf @ fst r) + length (concat (snd r)) < n"
      using "1.prems"(2) cat by (metis append.assoc length_append)
    have "read_loop msg n buf s = read_loop msg n (buf @ fst r) (snd r)"
      using lt False by (subst read_loop.simps) (simp add: r_def Let_def)
    with "1.IH"[OF lt r_def False wf' l2] show ?thesis by simp
  qed
qed

lemma unat_byte: "unat (of_nat k :: byte) = k mod 256"
  by (simp add: unat_of_nat)

lemma split4: "(n::nat) = n div 16777216 * 16777216 + n div 65536 mod 256 * 65536 + n div 256 mod 256 * 256 + n mod 256"
proof -
  have 1: "n = n div 256 * 256 + n mod 256" by simp
  have 2: "n div 256 = n div 65536 * 256 + n div 256 mod 256"
    using div_mult_mod_eq[of "n div 256" 256] by (simp add: div_mult2_eq[symmetric])
  have 3: "n div 65536 = n div 16777216 * 256 + n div 65536 mod 256"
    using div_mult_mod_eq[of "n div 65536" 256] by (simp add: div_mult2_eq[symmetric])
  show ?thesis using 1 2 3 by linarith
qed

lemma unpack_pack: "n < 2 ^ 32 \<Longrightarrow> \<exists>h. pack_I n = Inr h \<and> length h = 4 \<and> unpack_I h = Inr n"
proof -
  assume n: "n < 2 ^ 32"
  have a: "n div 16777216 mod 256 = n div 16777216" using n by simp
  show ?thesis using n a split4[of n] by (simp add: pack_I_def unat_byte)
qed

lemma recv_shrinks: "length (concat (snd (recv n s))) = length (concat s) - length (fst (recv n s))"
  using recv_concat[of n s] by (metis add_diff_cancel_left' length_append)

lemma recv_le: "length (concat (snd (recv n s))) \<le> length (concat s)"
  by (simp add: recv_shrinks)

lemma read_loop_le:
  "read_loop msg n buf s = Inr (b, s') \<Longrightarrow> length (concat s') \<le> length (concat s)"
proof (induction msg n buf s rule: read_loop.induct)
  case (1 msg n buf s)
  show ?case
  proof (cases "length buf < n")
    case False
    with "1.prems" show ?thesis by (simp add: read_loop.simps)
  next
    case True
    define r where "r = recv (n - length buf) s"
    from True "1.prems" have ne: "fst r \<noteq> []" and
      eq: "read_loop msg n (buf @ fst r) (snd r) = Inr (b, s')"
      by (simp_all add: read_loop.simps[of msg n buf s] Let_def r_def split: if_splits)
    from "1.IH"[OF True r_def ne eq] have "length (concat s') \<le> length (concat (snd r))" .
    also have "\<dots> \<le> length (concat s)" by (simp add: r_def recv_le)
    finally show ?thesis .
  qed
qed

lemma recv_exact_le:
  "recv_exact s n = Inr (b, s') \<Longrightarrow> length (concat s') \<le> length (concat s)"
  unfolding recv_exact_def by (rule read_loop_le)

lemma read_frame_shrinks:
  assumes "read_frame s = Frame p s'"
  shows "length (concat s') < length (concat s)"
proof -
  define h where "h = fst (recv 4 s)"
  define s1 where "s1 = snd (recv 4 s)"
  from assms have ne: "h \<noteq> []"
    by (auto simp: read_frame_def Let_def h_def split: if_splits)
  have l1: "length (concat s1) < length (concat s)"
    using ne recv_concat[of 4 s] unfolding h_def s1_def
    by (metis length_append length_greater_0_conv less_add_same_cancel2 add.commute)
  from assms ne obtain hd' s2 where
    hs: "(if length h < 4
          then (case recv_exact s1 (4 - length h) of Inl e \<Rightarrow> Inl e
                | Inr (extra, s2) \<Rightarrow> Inr (h @ extra, s2))
          else Inr (h, s1)) = Inr (hd', s2)"
    and rest: "(case unpack_I hd' of Inl e \<Rightarrow> Raised e
                | Inr msglen \<Rightarrow> (case recv_exact s2 msglen of Inl e \<Rightarrow> Raised e
                     | Inr (payload, s3) \<Rightarrow> Frame payload s3)) = Frame p s'"
    by (auto simp: read_frame_def Let_def h_def s1_def split: sum.splits prod.splits if_splits)
  from hs have l2: "length (concat s2) \<le> length (concat s1)"
    by (auto split: if_splits sum.splits prod.splits dest: recv_exact_le)
  from rest have l3: "length (concat s') \<le> length (concat s2)"
    by (auto split: sum.splits prod.splits dest: recv_exact_le)
  from l1 l2 l3 show ?thesis by linarith
qed

lemma send_response_inbound:
  "send_response rt st obj = Inr st' \<Longrightarrow> inbound st' = inbound st"
  by (auto simp: send_response_def split: sum.splits if_splits)

lemma store_document_inbound: "inbound (snd (store_document rt st d)) = inbound st"
  by (auto simp: store_document_def split: sum.splits prod.splits)

lemma handle_frame_inbound:
  "handle_frame rt st p = Inr st' \<Longrightarrow> inbound st' = inbound st"
  by (auto simp: handle_frame_def split: sum.splits prod.splits
      dest!: send_response_inbound)
     (metis store_document_inbound snd_conv select_convs(1) surjective update_convs(7))

lemma iteration_shrinks:
  "iteration rt st = Inr st' \<Longrightarrow>
   length (concat (inbound st')) < length (concat (inbound st))"
  by (auto simp: iteration_def split: read_result.splits
      dest!: handle_frame_inbound read_frame_shrinks)


termination handle_client
  by (relation "measure (\<lambda>(rt, st). length (concat (inbound st)))")
     (auto dest: iteration_shrinks)

declare handle_client.simps [simp del]

lemma pack_I_length: "pack_I n = Inr h \<Longrightarrow> length h = 4 \<and> unpack_I h = Inr n"
  using unpack_pack[of n] by (auto simp: pack_I_def split: if_splits)

lemma recv_exact_complete:
  "wf_sock s \<Longrightarrow> n \<le> length (concat s) \<Longrightarrow>
   \<exists>s'. recv_exact s n = Inr (take n (concat s), s')
        \<and> concat s' = drop n (concat s) \<and> wf_sock s'"
  using read_loop_complete[of s "[]" n "''Socket closed while reading''"]
  by (simp add: recv_exact_def)

lemma recv_exact_truncated:
  "wf_sock s \<Longrightarrow> length (concat s) < n \<Longrightarrow>
   recv_exact s n = Inl (ConnectionError ''Socket closed while reading'')"
  using read_loop_truncated[of s "[]" n] by (simp add: recv_exact_def)

text \<open>The header stage of the consumer's read: after it, exactly four bytes are in hand.\<close>

definition read_header :: "sock \<Rightarrow> exn + (byte list \<times> sock)" where
  "read_header s =
     (let header = fst (recv 4 s); s1 = snd (recv 4 s)
      in if length header < 4
         then (case recv_exact s1 (4 - length header) of
                 Inl e \<Rightarrow> Inl e
               | Inr (extra, s2) \<Rightarrow> Inr (header @ extra, s2))
         else Inr (header, s1))"

lemma read_frame_alt:
  "read_frame s =
     (if fst (recv 4 s) = [] then Closed
      else case read_header s of
             Inl e \<Rightarrow> Raised e
           | Inr (header', s2) \<Rightarrow>
               (case unpack_I header' of
                  Inl e \<Rightarrow> Raised e
                | Inr msglen \<Rightarrow>
                    (case recv_exact s2 msglen of
                       Inl e \<Rightarrow> Raised e
                     | Inr (payload, s3) \<Rightarrow> Frame payload s3)))"
  by (simp add: read_frame_def read_header_def Let_def)

lemma read_header_complete:
  assumes wf: "wf_sock s" and len: "4 \<le> length (concat s)"
  shows "\<exists>s2. read_header s = Inr (take 4 (concat s), s2)
            \<and> concat s2 = drop 4 (concat s) \<and> wf_sock s2"
proof -
  define h where "h = fst (recv 4 s)"
  define s1 where "s1 = snd (recv 4 s)"
  have cat: "h @ concat s1 = concat s" by (simp add: h_def s1_def recv_concat)
  have hl: "length h \<le> 4" by (simp add: h_def recv_length)
  have wf1: "wf_sock s1" using wf by (simp add: s1_def recv_wf)
  show ?thesis
  proof (cases "length h < 4")
    case False
    with hl have h4: "length h = 4" by simp
    have "take 4 (concat s) = h" "drop 4 (concat s) = concat s1"
      using h4 by (simp_all add: cat[symmetric])
    moreover have "read_header s = Inr (h, s1)"
      using False by (simp add: read_header_def Let_def h_def s1_def)
    ultimately show ?thesis using wf1 by simp
  next
    case True
    have cl: "length (concat s) = length h + length (concat s1)"
      using cat by (metis length_append)
    have "4 - length h \<le> length (concat s1)"
      using len cl by arith
    from recv_exact_complete[OF wf1 this] obtain s2 where
      r: "recv_exact s1 (4 - length h) = Inr (take (4 - length h) (concat s1), s2)"
      and c2: "concat s2 = drop (4 - length h) (concat s1)" and wf2: "wf_sock s2"
      by blast
    have "take 4 (concat s) = h @ take (4 - length h) (concat s1)"
         "drop 4 (concat s) = drop (4 - length h) (concat s1)"
      using True by (simp_all add: cat[symmetric])
    moreover have "read_header s = Inr (h @ take (4 - length h) (concat s1), s2)"
      using True r by (simp add: read_header_def Let_def h_def s1_def)
    ultimately show ?thesis using c2 wf2 by simp
  qed
qed

lemma read_header_truncated:
  assumes wf: "wf_sock s" and len: "length (concat s) < 4"
  shows "read_header s = Inl (ConnectionError ''Socket closed while reading'')"
proof -
  define h where "h = fst (recv 4 s)"
  define s1 where "s1 = snd (recv 4 s)"
  have cat: "h @ concat s1 = concat s" by (simp add: h_def s1_def recv_concat)
  have wf1: "wf_sock s1" using wf by (simp add: s1_def recv_wf)
  have cl: "length (concat s) = length h + length (concat s1)"
    using cat by (metis length_append)
  have lt: "length h < 4" using len cl by arith
  have "length (concat s1) < 4 - length h"
    using len cl by arith
  from recv_exact_truncated[OF wf1 this] lt show ?thesis
    by (simp add: read_header_def Let_def h_def s1_def)
qed

lemma read_frame_complete:
  assumes wf: "wf_sock s" and h: "pack_I (length p) = Inr h"
    and cat: "concat s = h @ p @ rest"
  shows "\<exists>s'. read_frame s = Frame p s' \<and> concat s' = rest \<and> wf_sock s'"
proof -
  from pack_I_length[OF h] have h4: "length h = 4" and un: "unpack_I h = Inr (length p)"
    by simp_all
  have len: "4 \<le> length (concat s)" using cat h4 by simp
  then have "concat s \<noteq> []" by (metis list.size(3) not_numeral_le_zero)
  with wf have ne: "fst (recv 4 s) \<noteq> []" by (simp add: recv_empty_iff)
  from read_header_complete[OF wf len] obtain s2 where
    rh: "read_header s = Inr (take 4 (concat s), s2)"
    and c2: "concat s2 = drop 4 (concat s)" and wf2: "wf_sock s2" by blast
  have t: "take 4 (concat s) = h" and d: "concat s2 = p @ rest"
    using h4 cat c2 by simp_all
  have "length p \<le> length (concat s2)" using d by simp
  from recv_exact_complete[OF wf2 this] obtain s3 where
    rp: "recv_exact s2 (length p) = Inr (take (length p) (concat s2), s3)"
    and c3: "concat s3 = drop (length p) (concat s2)" and wf3: "wf_sock s3" by blast
  have "take (length p) (concat s2) = p" "drop (length p) (concat s2) = rest"
    using d by simp_all
  with rp c3 wf3 ne rh t un show ?thesis
    by (simp add: read_frame_alt)
qed

lemma recv_frame_first_chunk:
  assumes wf: "wf_sock s" and h: "pack_I (length p) = Inr h"
    and cat: "concat s = h @ p @ rest" and first: "length (fst (recv 4 s)) = 4"
  shows "\<exists>s'. recv_frame loads s = (case loads p of Inl e \<Rightarrow> Inl e | Inr obj \<Rightarrow> Inr (obj, s'))
            \<and> concat s' = rest \<and> wf_sock s'"
proof -
  define hd4 where "hd4 = fst (recv 4 s)"
  define s1 where "s1 = snd (recv 4 s)"
  from pack_I_length[OF h] have h4: "length h = 4" and un: "unpack_I h = Inr (length p)"
    by simp_all
  have c: "hd4 @ concat s1 = h @ p @ rest" using cat by (simp add: hd4_def s1_def recv_concat)
  have l4: "length hd4 = 4" using first by (simp add: hd4_def)
  from c l4 h4 have eq: "hd4 = h" and c1: "concat s1 = p @ rest" by simp_all
  have wf1: "wf_sock s1" using wf by (simp add: s1_def recv_wf)
  have "length [] \<le> length p" "length p \<le> length ([]::byte list) + length (concat s1)"
    using c1 by simp_all
  from read_loop_complete[OF wf1 this, of "''server closed mid-frame''"] obtain s' where
    rl: "read_loop ''server closed mid-frame'' (length p) [] s1 = Inr (take (length p) (concat s1), s')"
    and c': "concat s' = drop (length p) (concat s1)" and wf': "wf_sock s'" by auto
  have ne: "hd4 \<noteq> []" using l4 by auto
  have "recv_frame loads s = (case loads p of Inl e \<Rightarrow> Inl e | Inr obj \<Rightarrow> Inr (obj, s'))"
    using ne l4 un rl c1 unfolding recv_frame_def Let_def hd4_def[symmetric] s1_def[symmetric] eq
    by (simp add: eq[symmetric])
  with c' c1 wf' show ?thesis by auto
qed


section \<open>A small runtime for concrete runs\<close>

text \<open>
  Concrete runs need concrete library functions. \<open>small_runtime\<close> is a stand-in that
  agrees with Python on the inputs the runs below decode: it decodes the JSON texts
  \<^verbatim>\<open>{}\<close> and \<^verbatim>\<open>[]\<close> and rejects every other payload, encodes the empty dict and the
  empty list as these texts (and, for lack of a JSON printer, any other value as two bytes
  too: of an encoded reply only the length matters below), reads strings of ASCII digits
  as numbers, and computes sums and quotients exactly, with rationals in the place of
  floats.
\<close>

definition digits_value :: "string \<Rightarrow> int option" where
  "digits_value t =
     (if t \<noteq> [] \<and> list_all (\<lambda>c. 48 \<le> (of_char c :: nat) \<and> (of_char c :: nat) \<le> 57) t
      then Some (fold (\<lambda>c n. 10 * n + (int (of_char c) - 48)) t 0)
      else None)"

fun small_add :: "rat pyval \<Rightarrow> rat pyval \<Rightarrow> exn + rat pyval" where
  "small_add (PInt a) (PInt b) = Inr (PInt (a + b))"
| "small_add (PInt a) (PBool b) = Inr (PInt (a + (if b then 1 else 0)))"
| "small_add (PInt a) (PFloat y) = Inr (PFloat (of_int a + y))"
| "small_add (PFloat x) (PInt b) = Inr (PFloat (x + of_int b))"
| "small_add (PFloat x) (PBool b) = Inr (PFloat (x + (if b then 1 else 0)))"
| "small_add (PFloat x) (PFloat y) = Inr (PFloat (x + y))"
| "small_add _ _ = Inl (TypeError ''unsupported operand type(s) for +'')"

fun small_sum :: "rat pyval \<Rightarrow> rat pyval list \<Rightarrow> exn + rat pyval" where
  "small_sum acc [] = Inr acc"
| "small_sum acc (v # vs) =
     (case small_add acc v of Inl e \<Rightarrow> Inl e | Inr acc' \<Rightarrow> small_sum acc' vs)"

fun small_truediv :: "rat pyval \<Rightarrow> nat \<Rightarrow> exn + rat pyval" where
  "small_truediv (PInt a) n = Inr (PFloat (of_int a / of_nat n))"
| "small_truediv (PFloat x) n = Inr (PFloat (x / of_nat n))"
| "small_truediv _ n = Inl (TypeError ''unsupported operand type(s) for /'')"

definition small_runtime :: "rat runtime" where
  "small_runtime =
     \<lparr>json_loads = (\<lambda>b. if b = [123, 125] then Inr (PDict [])
                        else if b = [91, 93] then Inr (PList [])
                        else Inl (ValueError ''Expecting value'')),
      json_dumps = (\<lambda>v. if v = PList [] then [91, 93] else [123, 125]),
      isoformat = (\<lambda>t. replicate t CHR ''T''),
      str_oid = (\<lambda>i. replicate (Suc i) CHR ''i''),
      py_sum = small_sum (PInt 0),
      py_truediv = small_truediv,
      py_int = digits_value,
      py_float = (\<lambda>t. map_option of_int (digits_value t))\<rparr>"

text \<open>The handler's state when a connection has just been accepted.\<close>

definition accepted :: "sock \<Rightarrow> 'f collection \<Rightarrow> 'f conn" where
  "accepted s c =
     \<lparr>inbound = s, outbound = [], replies = [], peer_gone = False, closed = False,
      coll = c, clock = 0\<rparr>"

definition empty_collection :: "'f collection" where
  "empty_collection = \<lparr>stored = [], next_id = 0, faults = []\<rparr>"

section \<open>Framing: partial reads, round trip, closure\<close>

text \<open>
  Claim C1 (partial reads). A frame delivered one byte at a time must decode as it does
  when delivered whole, on the server (\<^verbatim>\<open>handle_client\<close> with \<^verbatim>\<open>recv_exact\<close>) and on the
  client (\<^verbatim>\<open>recv_frame\<close>). The server does so for every chunking
  (\<open>read_frame_complete\<close>). The client does not: \<^verbatim>\<open>recv_frame\<close> completes a short header
  with one more \<^verbatim>\<open>recv\<close> instead of a loop, so the frame of \<^verbatim>\<open>{}\<close>, bytes
  \<open>00 00 00 02 7b 7d\<close>, decodes when it arrives whole and raises \<^verbatim>\<open>struct.error\<close> when it
  arrives byte by byte (two header bytes are in hand when \<^verbatim>\<open>struct.unpack\<close> runs).
\<close>

theorem recv_frame_byte_by_byte:
  "read_frame [[0, 0, 0, 2, 123, 125]] = Frame [123, 125] []
   \<and> read_frame [[0], [0], [0], [2], [123], [125]] = Frame [123, 125] []
   \<and> recv_frame loads [[0, 0, 0, 2, 123, 125]]
       = (case loads [123, 125] of Inl e \<Rightarrow> Inl e | Inr obj \<Rightarrow> Inr (obj, []))
   \<and> recv_frame loads [[0], [0], [0], [2], [123], [125]] = Inl StructError"
  by (simp add: read_frame_def recv_exact_def recv_frame_def read_loop.simps Let_def)

text \<open>
  Claim C2 (round trip). An object whose encoding \<open>dumps obj\<close> is shorter than \<open>2^32\<close>
  bytes and is read back by \<open>loads\<close> as the same object survives framing: the encoder
  produces a wire string, the server's reader recovers the payload from every chunking of
  it, and \<^verbatim>\<open>recv_frame\<close> returns the object from every chunking whose first read brings the
  four header bytes.
\<close>

theorem frame_round_trip:
  assumes "length (dumps obj) < 2 ^ 32" and "loads (dumps obj) = Inr obj"
  shows "\<exists>wire. encode_frame dumps obj = Inr wire
          \<and> (wf_sock s \<and> concat s = wire \<longrightarrow>
                read_frame s = Frame (dumps obj) []
                \<and> (length (fst (recv 4 s)) = 4 \<longrightarrow> recv_frame loads s = Inr (obj, [])))"
proof -
  from unpack_pack[OF assms(1)] obtain h where h: "pack_I (length (dumps obj)) = Inr h"
    by blast
  have enc: "encode_frame dumps obj = Inr (h @ dumps obj)"
    by (simp add: encode_frame_def Let_def h)
  have "read_frame s = Frame (dumps obj) []
        \<and> (length (fst (recv 4 s)) = 4 \<longrightarrow> recv_frame loads s = Inr (obj, []))"
    if wf: "wf_sock s" and cat: "concat s = h @ dumps obj"
  proof -
    have cat': "concat s = h @ dumps obj @ []" using cat by simp
    from read_frame_complete[OF wf h cat'] obtain s' where
      "read_frame s = Frame (dumps obj) s'" "concat s' = []" "wf_sock s'" by blast
    then have a: "read_frame s = Frame (dumps obj) []"
      by (cases s') (auto simp: wf_sock_def)
    have b: "recv_frame loads s = Inr (obj, [])" if f: "length (fst (recv 4 s)) = 4"
    proof -
      from recv_frame_first_chunk[OF wf h cat' f, of loads] obtain s' where
        "recv_frame loads s = Inr (obj, s')" "concat s' = []" "wf_sock s'"
        by (auto simp: assms(2))
      then show ?thesis by (cases s') (auto simp: wf_sock_def)
    qed
    from a b show ?thesis by blast
  qed
  with enc show ?thesis by auto
qed

theorem frame_round_trip_witness:
  "length (json_dumps small_runtime (PDict [])) < 2 ^ 32
   \<and> json_loads small_runtime (json_dumps small_runtime (PDict [])) = Inr (PDict [])
   \<and> encode_frame (json_dumps small_runtime) (PDict []) = Inr [0, 0, 0, 2, 123, 125]
   \<and> wf_sock [[0, 0, 0, 2], [123], [125]]
   \<and> read_frame [[0, 0, 0, 2], [123], [125]] = Frame [123, 125] []
   \<and> length (fst (recv 4 [[0, 0, 0, 2], [123], [125]])) = 4
   \<and> recv_frame (json_loads small_runtime) [[0, 0, 0, 2], [123], [125]] = Inr (PDict [], [])"
proof -
  have 1: "length (json_dumps small_runtime (PDict [])) < 2 ^ 32"
    by (simp add: small_runtime_def)
  have 2: "json_loads small_runtime (json_dumps small_runtime (PDict [])) = Inr (PDict [])"
    by (simp add: small_runtime_def)
  have 3: "encode_frame (json_dumps small_runtime) (PDict []) = Inr [0, 0, 0, 2, 123, 125]"
    by (simp add: encode_frame_def pack_I_def small_runtime_def)
  have 4: "wf_sock [[0, 0, 0, 2], [123], [125]]" by (simp add: wf_sock_def)
  have 5: "json_dumps small_runtime (PDict []) = [123, 125]" by (simp add: small_runtime_def)
  from frame_round_trip[of "json_dumps small_runtime" "PDict []" "json_loads small_runtime"
         "[[0, 0, 0, 2], [123], [125]]", OF 1 2] 1 2 3 4 5
  show ?thesis by simp
qed

text \<open>
  Claim C3 (clean closure against truncation). \<open>cut_short bs\<close> says that the bytes
  \<open>bs\<close> are a frame cut off after its first byte: fewer than four bytes, or a full header
  announcing more payload than follows. When the first read of a frame is empty the
  handler leaves its loop through the \<^verbatim>\<open>break\<close> and nothing is raised; when the stream
  ends inside a frame, \<^verbatim>\<open>recv_exact\<close> raises \<^verbatim>\<open>ConnectionError\<close>, which ends the handler in
  its \<^verbatim>\<open>except ConnectionError\<close> clause. In both cases no reply is sent.
\<close>

definition cut_short :: "byte list \<Rightarrow> bool" where
  "cut_short bs =
     (bs \<noteq> [] \<and>
      (length bs < 4 \<or>
       (case unpack_I (take 4 bs) of Inl e \<Rightarrow> False | Inr n \<Rightarrow> length bs < 4 + n)))"

theorem closed_or_truncated:
  "(fst (recv 4 (inbound st)) = [] \<longrightarrow>
      read_frame (inbound st) = Closed
      \<and> fst (handle_client rt st) = PeerClosed
      \<and> replies (snd (handle_client rt st)) = replies st)
   \<and> (wf_sock (inbound st) \<and> cut_short (concat (inbound st)) \<longrightarrow>
      read_frame (inbound st) = Raised (ConnectionError ''Socket closed while reading'')
      \<and> fst (handle_client rt st) = ConnectionFault (ConnectionError ''Socket closed while reading'')
      \<and> replies (snd (handle_client rt st)) = replies st)"
proof (intro conjI impI)
  assume e: "fst (recv 4 (inbound st)) = []"
  then show c: "read_frame (inbound st) = Closed" by (simp add: read_frame_alt)
  then show "fst (handle_client rt st) = PeerClosed"
    and "replies (snd (handle_client rt st)) = replies st"
    by (simp_all add: handle_client.simps[of rt st] iteration_def)
next
  assume a: "wf_sock (inbound st) \<and> cut_short (concat (inbound st))"
  define s where "s = inbound st"
  from a have wf: "wf_sock s" and ne: "concat s \<noteq> []" by (simp_all add: s_def cut_short_def)
  from wf ne have ne4: "fst (recv 4 s) \<noteq> []" by (simp add: recv_empty_iff)
  have r: "read_frame s = Raised (ConnectionError ''Socket closed while reading'')"
  proof (cases "length (concat s) < 4")
    case True
    from read_header_truncated[OF wf True] ne4 show ?thesis by (simp add: read_frame_alt)
  next
    case False
    then have len: "4 \<le> length (concat s)" by simp
    from a False obtain n where un: "unpack_I (take 4 (concat s)) = Inr n"
      and lt: "length (concat s) < 4 + n"
      by (auto simp: cut_short_def s_def split: sum.splits)
    from read_header_complete[OF wf len] obtain s2 where
      rh: "read_header s = Inr (take 4 (concat s), s2)"
      and c2: "concat s2 = drop 4 (concat s)" and wf2: "wf_sock s2" by blast
    have "length (concat s2) < n" using c2 lt len by simp
    from recv_exact_truncated[OF wf2 this] ne4 rh un show ?thesis
      by (simp add: read_frame_alt)
  qed
  then show r': "read_frame (inbound st) = Raised (ConnectionError ''Socket closed while reading'')"
    by (simp add: s_def)
  then show "fst (handle_client rt st) = ConnectionFault (ConnectionError ''Socket closed while reading'')"
    and "replies (snd (handle_client rt st)) = replies st"
    by (simp_all add: handle_client.simps[of rt st] iteration_def)
qed

theorem closed_or_truncated_witness:
  "fst (recv 4 (inbound (accepted [] (empty_collection :: rat collection)))) = []
   \<and> fst (handle_client small_runtime (accepted [] empty_collection)) = PeerClosed
   \<and> wf_sock (inbound (accepted [[0, 0]] (empty_collection :: rat collection)))
   \<and> cut_short (concat (inbound (accepted [[0, 0]] (empty_collection :: rat collection))))
   \<and> fst (handle_client small_runtime (accepted [[0, 0]] empty_collection))
       = ConnectionFault (ConnectionError ''Socket closed while reading'')
   \<and> wf_sock (inbound (accepted [[0, 0, 0, 2], [123]] (empty_collection :: rat collection)))
   \<and> cut_short (concat (inbound (accepted [[0, 0, 0, 2], [123]] (empty_collection :: rat collection))))
   \<and> fst (handle_client small_runtime (accepted [[0, 0, 0, 2], [123]] empty_collection))
       = ConnectionFault (ConnectionError ''Socket closed while reading'')"
proof -
  have 1: "fst (recv 4 (inbound (accepted [] (empty_collection :: rat collection)))) = []"
    by (simp add: accepted_def)
  have 2: "wf_sock (inbound (accepted [[0, 0]] (empty_collection :: rat collection)))
           \<and> cut_short (concat (inbound (accepted [[0, 0]] (empty_collection :: rat collection))))"
    by (simp add: accepted_def wf_sock_def cut_short_def)
  have 3: "wf_sock (inbound (accepted [[0, 0, 0, 2], [123]] (empty_collection :: rat collection)))
           \<and> cut_short (concat (inbound (accepted [[0, 0, 0, 2], [123]] (empty_collection :: rat collection))))"
    by (simp add: accepted_def wf_sock_def cut_short_def)
  from closed_or_truncated[of "accepted [] empty_collection" small_runtime]
       closed_or_truncated[of "accepted [[0, 0]] empty_collection" small_runtime]
       closed_or_truncated[of "accepted [[0, 0, 0, 2], [123]] empty_collection" small_runtime]
       1 2 3
  show ?thesis by blast
qed


section \<open>The connection handler: one frame, one reply\<close>

lemma handle_client_end:
  assumes wf: "wf_sock (inbound st)" and cat: "concat (inbound st) = []"
  shows "handle_client rt st = (PeerClosed, st\<lparr>inbound := []\<rparr>)"
proof -
  from wf cat have e: "inbound st = []"
    by (cases "inbound st") (auto simp: wf_sock_def)
  then have "read_frame (inbound st) = Closed" by (simp add: read_frame_alt)
  then show ?thesis
    by (subst handle_client.simps) (simp add: iteration_def e)
qed

lemma send_response_ok:
  assumes "\<not> peer_gone st" and "length (json_dumps rt obj) < 2 ^ 32"
  shows "\<exists>w. encode_frame (json_dumps rt) obj = Inr w
           \<and> send_response rt st obj
              = Inr (st\<lparr>outbound := outbound st @ w, replies := replies st @ [obj]\<rparr>)"
proof -
  from unpack_pack[OF assms(2)] obtain h where "pack_I (length (json_dumps rt obj)) = Inr h"
    by blast
  then have "encode_frame (json_dumps rt) obj = Inr (h @ json_dumps rt obj)"
    by (simp add: encode_frame_def Let_def)
  with assms(1) show ?thesis by (simp add: send_response_def)
qed


lemma store_document_update_fails:
  assumes f: "faults (coll st) = None # Some reason # fs"
    and pr: "process_document rt d = Inr res"
  shows "store_document rt st d =
           (ack_error reason,
            st\<lparr>coll := (coll st)\<lparr>stored := stored (coll st) @ [(next_id (coll st), d)],
                                 next_id := Suc (next_id (coll st)),
                                 faults := fs\<rparr>,
                clock := Suc (clock st)\<rparr>)"
  using f pr by (simp add: store_document_def insert_one_def update_one_def)

subsection \<open>What a run of the handler keeps\<close>

text \<open>
  A collection has fresh identifiers when every stored identifier is below its counter,
  so that the identifiers still to be assigned are new. \<open>grows st st'\<close> says that
  \<open>st'\<close> has all the replies of \<open>st\<close>, in their places, and, when the identifiers of
  \<open>st\<close> are fresh, all its stored records too, unchanged. Every step of the handler and
  hence every run grows the state: a reply that was sent and a record that was inserted
  are still there when \<^verbatim>\<open>handle_client\<close> returns.
\<close>

definition fresh_ids :: "'f collection \<Rightarrow> bool" where
  "fresh_ids c = list_all (\<lambda>(j, d). j < next_id c) (stored c)"

lemma update_fresh:
  assumes "list_all (\<lambda>(j, d). j < (i::nat)) xs"
  shows "map (\<lambda>(j, d). if j = i then (j, f d) else (j, d)) (xs @ [(i, d0)]) = xs @ [(i, f d0)]"
proof -
  have "map (\<lambda>(j, d). if j = i then (j, f d) else (j, d)) xs = xs"
    using assms by (induction xs) auto
  then show ?thesis by simp
qed

lemma fresh_ids_grow:
  "list_all (\<lambda>(j, d). j < (i::nat)) xs \<Longrightarrow> list_all (\<lambda>(j, d). j < Suc i) (xs @ [(i, d0)])"
  by (induction xs) auto

lemma store_document_stored:
  assumes fr: "fresh_ids (coll st)"
  shows "fresh_ids (coll (snd (store_document rt st d)))
         \<and> (\<exists>ext. stored (coll (snd (store_document rt st d))) = stored (coll st) @ ext)"
  using fr fresh_ids_grow[of "next_id (coll st)" "stored (coll st)"]
        update_fresh[of "next_id (coll st)" "stored (coll st)"]
  by (auto simp: store_document_def insert_one_def update_one_def fresh_ids_def
           split: list.splits option.splits sum.splits)

definition grows :: "'f conn \<Rightarrow> 'f conn \<Rightarrow> bool" where
  "grows st st' =
     ((fresh_ids (coll st) \<longrightarrow>
         fresh_ids (coll st') \<and> (\<exists>ext. stored (coll st') = stored (coll st) @ ext))
      \<and> (\<exists>ext. replies st' = replies st @ ext))"

fun after :: "(outcome \<times> 'f conn) + 'f conn \<Rightarrow> 'f conn" where
  "after (Inl (out, st)) = st"
| "after (Inr st) = st"

lemma grows_refl: "grows st st"
  by (simp add: grows_def)

lemma grows_trans: "grows a b \<Longrightarrow> grows b c \<Longrightarrow> grows a c"
  by (auto simp: grows_def)

lemma leave_same: "coll (snd (leave e st)) = coll st \<and> replies (snd (leave e st)) = replies st"
  by (cases e) simp_all

lemma send_response_same:
  "send_response rt st a = Inr st' \<Longrightarrow> coll st' = coll st \<and> replies st' = replies st @ [a]"
  by (auto simp: send_response_def split: sum.splits if_splits)

lemma store_document_replies: "replies (snd (store_document rt st d)) = replies st"
  by (auto simp: store_document_def split: sum.splits prod.splits)

lemma handle_frame_grows: "grows st (after (handle_frame rt st p))"
proof (cases "json_loads rt p")
  case (Inl e)
  show ?thesis
  proof (cases "send_response rt st (ack_error (''invalid json: '' @ exn_str e))")
    case (Inl e')
    with \<open>json_loads rt p = Inl e\<close> leave_same[of e' st] show ?thesis
      by (cases "leave e' st") (simp add: handle_frame_def grows_def)
  next
    case (Inr st')
    with \<open>json_loads rt p = Inl e\<close> send_response_same[OF Inr] show ?thesis
      by (simp add: handle_frame_def grows_def)
  qed
next
  case (Inr v)
  show ?thesis
  proof (cases "setitem v ''_receivedAt'' (PStr (isoformat rt (clock st)))")
    case (Inl e)
    with Inr leave_same[of e st] show ?thesis
      by (cases "leave e st") (simp add: handle_frame_def grows_def)
  next
    case d: (Inr d)
    define st0 where "st0 = st\<lparr>clock := Suc (clock st)\<rparr>"
    obtain a st1 where sd: "store_document rt st0 d = (a, st1)"
      by (cases "store_document rt st0 d")
    from store_document_stored[of st0 rt d] store_document_replies[of rt st0 d] sd
    have g1: "grows st st1" by (simp add: grows_def st0_def)
    show ?thesis
    proof (cases "send_response rt st1 a")
      case (Inl e')
      with Inr d sd g1 leave_same[of e' st1] show ?thesis
        by (cases "leave e' st1") (auto simp: handle_frame_def grows_def st0_def)
    next
      case st2: (Inr st2)
      with Inr d sd g1 send_response_same[OF st2] show ?thesis
        by (auto simp: handle_frame_def grows_def st0_def)
    qed
  qed
qed

lemma iteration_grows: "grows st (after (iteration rt st))"
proof (cases "read_frame (inbound st)")
  case Closed
  then show ?thesis by (simp add: iteration_def grows_def)
next
  case (Raised e)
  with leave_same[of e "st\<lparr>inbound := []\<rparr>"] show ?thesis
    by (cases "leave e (st\<lparr>inbound := []\<rparr>)") (simp add: iteration_def grows_def)
next
  case (Frame p s')
  from handle_frame_grows[of "st\<lparr>inbound := s'\<rparr>" rt p] Frame show ?thesis
    by (simp add: iteration_def grows_def)
qed

lemma handle_client_grows: "grows st (snd (handle_client rt st))"
proof (induction rt st rule: handle_client.induct)
  case (1 rt st)
  show ?case
  proof (cases "iteration rt st")
    case (Inl r)
    with iteration_grows[of st rt] show ?thesis
      by (cases r) (simp add: handle_client.simps[of rt st])
  next
    case (Inr st')
    with iteration_grows[of st rt] have g: "grows st st'" by simp
    from "1.IH"[OF Inr] have "grows st' (snd (handle_client rt st'))" .
    from grows_trans[OF g this] Inr show ?thesis
      by (simp add: handle_client.simps[of rt st])
  qed
qed

lemma iteration_frame:
  assumes wf: "wf_sock (inbound st)" and h: "pack_I (length p) = Inr h"
    and cat: "concat (inbound st) = h @ p @ rest"
  shows "\<exists>s'. concat s' = rest \<and> wf_sock s'
           \<and> iteration rt st = handle_frame rt (st\<lparr>inbound := s'\<rparr>) p"
proof -
  from read_frame_complete[OF wf h cat] obtain s' where
    r: "read_frame (inbound st) = Frame p s'" and c: "concat s' = rest" and w: "wf_sock s'"
    by blast
  have "iteration rt st = handle_frame rt (st\<lparr>inbound := s'\<rparr>) p"
    by (simp add: iteration_def r)
  with c w show ?thesis by blast
qed




definition failing_update :: "rat collection" where
  "failing_update = \<lparr>stored = [], next_id = 0, faults = [None, Some ''update failed'']\<rparr>"

definition record_on_failing_update :: "rat conn" where
  "record_on_failing_update = accepted [[0, 0, 0, 2, 123, 125]] failing_update"

text \<open>
  Claim C10 (error reply after a stored record). When the next frame carries a record,
  the insert succeeds and the update that follows raises, the iteration of the handler
  ends in exactly this state: the record with its \<^verbatim>\<open>_receivedAt\<close> stamp is appended to
  the collection under the identifier assigned to it and is not removed again, and the
  one reply sent is \<^verbatim>\<open>{"status": "error", "reason": ...}\<close> with the update's reason.
  When the handler returns, that reply is among the replies sent (in both consumers) and,
  for a collection with fresh identifiers, the record is still stored as it was inserted.
\<close>

theorem error_ack_after_insert:
  assumes wf: "wf_sock (inbound st)" and h: "pack_I (length p) = Inr h"
    and cat: "concat (inbound st) = h @ p @ rest"
    and ok: "json_loads rt p = Inr (PDict kvs)"
    and f: "faults (coll st) = None # Some reason # fs"
    and pr: "process_document rt (dict_set kvs ''_receivedAt'' (PStr (isoformat rt (clock st))))
               = Inr res"
    and op: "\<not> peer_gone st"
    and fits: "length (json_dumps rt (ack_error reason)) < 2 ^ 32"
  shows "\<exists>s' w ext.
           wf_sock s' \<and> concat s' = rest
           \<and> encode_frame (json_dumps rt) (ack_error reason) = Inr w
           \<and> iteration rt st
               = Inr (st\<lparr>inbound := s', outbound := outbound st @ w,
                         replies := replies st @ [ack_error reason],
                         coll := (coll st)
                           \<lparr>stored := stored (coll st)
                              @ [(next_id (coll st),
                                  dict_set kvs ''_receivedAt'' (PStr (isoformat rt (clock st))))],
                            next_id := Suc (next_id (coll st)),
                            faults := fs\<rparr>,
                         clock := Suc (Suc (clock st))\<rparr>)
           \<and> handle_client rt st
               = handle_client rt
                   (st\<lparr>inbound := s', outbound := outbound st @ w,
                         replies := replies st @ [ack_error reason],
                         coll := (coll st)
                           \<lparr>stored := stored (coll st)
                              @ [(next_id (coll st),
                                  dict_set kvs ''_receivedAt'' (PStr (isoformat rt (clock st))))],
                            next_id := Suc (next_id (coll st)),
                            faults := fs\<rparr>,
                         clock := Suc (Suc (clock st))\<rparr>)
           \<and> replies (snd (handle_client rt st)) = replies st @ ack_error reason # ext
           \<and> replies (snd (handle_client_threaded rt st)) = replies st @ ack_error reason # ext
           \<and> (fresh_ids (coll st) \<longrightarrow>
                (\<exists>later. stored (coll (snd (handle_client rt st)))
                   = stored (coll st)
                     @ (next_id (coll st),
                        dict_set kvs ''_receivedAt'' (PStr (isoformat rt (clock st)))) # later))"
proof -
  define d where "d = dict_set kvs ''_receivedAt'' (PStr (isoformat rt (clock st)))"
  from iteration_frame[OF wf h cat, of rt] obtain s' where
    c: "concat s' = rest" and w: "wf_sock s'"
    and it: "iteration rt st = handle_frame rt (st\<lparr>inbound := s'\<rparr>) p"
    by blast
  define st1 where "st1 = st\<lparr>inbound := s', clock := Suc (clock st)\<rparr>"
  define c2 where "c2 = (coll st)\<lparr>stored := stored (coll st) @ [(next_id (coll st), d)],
                                 next_id := Suc (next_id (coll st)), faults := fs\<rparr>"
  define st2 where "st2 = st1\<lparr>coll := c2, clock := Suc (clock st1)\<rparr>"
  have f1: "faults (coll st1) = None # Some reason # fs" using f by (simp add: st1_def)
  have sd: "store_document rt st1 d = (ack_error reason, st2)"
    using store_document_update_fails[OF f1, of rt d res] pr
    by (simp add: d_def st2_def c2_def st1_def)
  have op2: "\<not> peer_gone st2" using op by (simp add: st2_def st1_def)
  from send_response_ok[OF op2 fits] obtain w' where
    enc: "encode_frame (json_dumps rt) (ack_error reason) = Inr w'"
    and sr: "send_response rt st2 (ack_error reason)
          = Inr (st2\<lparr>outbound := outbound st2 @ w', replies := replies st2 @ [ack_error reason]\<rparr>)"
    by blast
  define st' where "st' = st\<lparr>inbound := s', outbound := outbound st @ w',
                         replies := replies st @ [ack_error reason],
                         coll := c2, clock := Suc (Suc (clock st))\<rparr>"
  have st'_eq: "st2\<lparr>outbound := outbound st2 @ w', replies := replies st2 @ [ack_error reason]\<rparr> = st'"
    by (simp add: st'_def st2_def st1_def)
  have hf: "handle_frame rt (st\<lparr>inbound := s'\<rparr>) p = Inr st'"
    using ok sd sr st'_eq by (simp add: handle_frame_def d_def st1_def)
  have 1: "iteration rt st = Inr st'" using it hf by simp
  have 2: "handle_client rt st = handle_client rt st'"
    by (subst handle_client.simps) (simp add: 1)
  from handle_client_grows[of st' rt] have g: "grows st' (snd (handle_client rt st'))" .
  then obtain ext where "replies (snd (handle_client rt st')) = replies st' @ ext"
    by (auto simp: grows_def)
  then have 3: "replies (snd (handle_client rt st)) = replies st @ ack_error reason # ext"
    using 2 by (simp add: st'_def)
  then have 4: "replies (snd (handle_client_threaded rt st)) = replies st @ ack_error reason # ext"
    by (cases "handle_client rt st") (simp add: handle_client_threaded_def)
  have 5: "\<exists>later. stored (coll (snd (handle_client rt st)))
                   = stored (coll st) @ (next_id (coll st), d) # later"
    if fr: "fresh_ids (coll st)"
  proof -
    have "fresh_ids (coll st')"
      using fr fresh_ids_grow[of "next_id (coll st)" "stored (coll st)" d]
      by (simp add: fresh_ids_def st'_def c2_def)
    with g obtain later where
      "stored (coll (snd (handle_client rt st'))) = stored (coll st') @ later"
      by (auto simp: grows_def)
    then show ?thesis using 2 by (simp add: st'_def c2_def)
  qed
  from w c enc 1 2 3 4 5 show ?thesis unfolding st'_def c2_def d_def by blast
qed

theorem error_ack_after_insert_witness:
  "wf_sock (inbound record_on_failing_update)
   \<and> pack_I (length [123, 125 :: byte]) = Inr [0, 0, 0, 2]
   \<and> concat (inbound record_on_failing_update) = [0, 0, 0, 2] @ [123, 125] @ []
   \<and> json_loads small_runtime [123, 125] = Inr (PDict [])
   \<and> faults (coll record_on_failing_update) = None # Some ''update failed'' # []
   \<and> process_document small_runtime
        (dict_set [] ''_receivedAt'' (PStr (isoformat small_runtime (clock record_on_failing_update))))
        = Inr (PDict [(''numeric_count'', PInt 0), (''numeric_sum'', PInt 0),
                      (''numeric_avg'', PNone)])
   \<and> \<not> peer_gone record_on_failing_update
   \<and> length (json_dumps small_runtime (ack_error ''update failed'')) < 2 ^ 32
   \<and> fresh_ids (coll record_on_failing_update)
   \<and> replies (snd (handle_client small_runtime record_on_failing_update))
        = [ack_error ''update failed'']
   \<and> stored (coll (snd (handle_client small_runtime record_on_failing_update)))
        = [(0, [(''_receivedAt'', PStr [])])]"
proof -
  let ?st = record_on_failing_update
  have 1: "wf_sock (inbound ?st)"
    by (simp add: record_on_failing_update_def accepted_def wf_sock_def)
  have 2: "pack_I (length [123, 125 :: byte]) = Inr [0, 0, 0, 2]" by (simp add: pack_I_def)
  have 3: "concat (inbound ?st) = [0, 0, 0, 2] @ [123, 125] @ []"
    by (simp add: record_on_failing_update_def accepted_def)
  have 4: "json_loads small_runtime [123, 125] = Inr (PDict [])"
    by (simp add: small_runtime_def)
  have 5: "faults (coll ?st) = None # Some ''update failed'' # []"
    by (simp add: record_on_failing_update_def accepted_def failing_update_def)
  have 6: "process_document small_runtime
        (dict_set [] ''_receivedAt'' (PStr (isoformat small_runtime (clock ?st))))
        = Inr (PDict [(''numeric_count'', PInt 0), (''numeric_sum'', PInt 0),
                      (''numeric_avg'', PNone)])"
    by (simp add: process_document_def summarise_def startswith_gen_def)
  have 7: "\<not> peer_gone ?st" by (simp add: record_on_failing_update_def accepted_def)
  have 8: "length (json_dumps small_runtime (ack_error ''update failed'')) < 2 ^ 32"
    by (simp add: small_runtime_def)
  have 9: "fresh_ids (coll ?st)"
    by (simp add: fresh_ids_def record_on_failing_update_def accepted_def failing_update_def)
  from error_ack_after_insert[OF 1 2 3 4 5 6 7 8] 9 obtain s' w ext later where
    s': "wf_sock s'" "concat s' = []"
    and hc: "handle_client small_runtime ?st
               = handle_client small_runtime
                   (?st\<lparr>inbound := s', outbound := outbound ?st @ w,
                         replies := replies ?st @ [ack_error ''update failed''],
                         coll := (coll ?st)
                           \<lparr>stored := stored (coll ?st)
                              @ [(next_id (coll ?st),
                                  dict_set [] ''_receivedAt'' (PStr (isoformat small_runtime (clock ?st))))],
                            next_id := Suc (next_id (coll ?st)),
                            faults := []\<rparr>,
                         clock := Suc (Suc (clock ?st))\<rparr>)"
    by blast
  from s' have e: "s' = []" by (cases s') (auto simp: wf_sock_def)
  have "snd (handle_client small_runtime ?st)
      = ?st\<lparr>inbound := [], outbound := outbound ?st @ w,
                         replies := replies ?st @ [ack_error ''update failed''],
                         coll := (coll ?st)
                           \<lparr>stored := stored (coll ?st)
                              @ [(next_id (coll ?st),
                                  dict_set [] ''_receivedAt'' (PStr (isoformat small_runtime (clock ?st))))],
                            next_id := Suc (next_id (coll ?st)),
                            faults := []\<rparr>,
                         clock := Suc (Suc (clock ?st))\<rparr>"
    unfolding hc e by (subst handle_client_end) (simp_all add: wf_sock_def)
  then have 10: "replies (snd (handle_client small_runtime ?st)) = [ack_error ''update failed'']"
    and 11: "stored (coll (snd (handle_client small_runtime ?st)))
        = [(0, [(''_receivedAt'', PStr [])])]"
    by (simp_all add: record_on_failing_update_def accepted_def failing_update_def small_runtime_def)
  from 1 2 3 4 5 6 7 8 9 10 11 show ?thesis by blast
qed

section \<open>The connection handler: a stream of frames\<close>










text \<open>
  The identifier of an \<open>ok\<close> reply, and the assumption that every acknowledgement encodes
  to fewer than \<open>2^32\<close> bytes.
\<close>

fun ack_id :: "'f pyval \<Rightarrow> string option" where
  "ack_id (PDict [(k1, PStr s), (k2, PStr i)]) =
     (if k1 = ''status'' \<and> s = ''ok'' \<and> k2 = ''id'' then Some i else None)"
| "ack_id _ = None"


lemma ack_id_simps [simp]:
  "ack_id (ack_ok rt i) = Some (str_oid rt i)" "ack_id (ack_error r) = None"
  by (simp_all add: ack_ok_def ack_error_def)




















section \<open>The reconnecting producer\<close>

text \<open>
  The producer's side of a connection: what its reads can still deliver, and how many
  further \<^verbatim>\<open>sendall\<close> calls the transport takes before it fails with an \<^verbatim>\<open>OSError\<close>.
  The network is a script of the coming connection attempts: each is refused, or accepted
  and then behaves as the given socket.
\<close>

record csock =
  pending :: sock
  accepts :: nat

datatype attempt = Refused | Accepted csock

text \<open>
  \<^verbatim>\<open>connect_with_backoff(host, port, initial_backoff, max_backoff)\<close> of
  producer_periodic.py:
  \<^verbatim>\<open>
    backoff = initial_backoff
    while not connectedd:
        try:
            sock = socket.socket(...); sock.settimeout(10); sock.connect((host, port))
            ...
            return sock
        except Exception as e:
            time.sleep(backoff)
            backoff = min(max_backoff, backoff * 2)
  \<close>
  The first argument of the model is the loop variable \<open>backoff\<close>, which starts as
  \<open>initial_backoff\<close>. The result lists the delays slept, in order, and says how the loop
  went: it returned a socket (with the attempts still to come), \<^verbatim>\<open>time.sleep\<close> raised
  \<^verbatim>\<open>ValueError\<close> on a negative delay (inside the handler, so it leaves the function), or
  the script ended with the loop still retrying. Durations are rationals: doubling and
  \<open>min\<close> are exact on binary floating-point numbers short of overflow.
\<close>

datatype connect_end = Connected csock "attempt list" | SleepRaised exn | StillRetrying

fun connect_with_backoff :: "rat \<Rightarrow> rat \<Rightarrow> attempt list \<Rightarrow> rat list \<times> connect_end" where
  "connect_with_backoff backoff max_backoff [] = ([], StillRetrying)"
| "connect_with_backoff backoff max_backoff (Accepted sk # rest) = ([], Connected sk rest)"
| "connect_with_backoff backoff max_backoff (Refused # rest) =
     (if backoff < 0
      then ([], SleepRaised (ValueError ''sleep length must be non-negative''))
      else (case connect_with_backoff (min max_backoff (backoff * 2)) max_backoff rest of
              (delays, e) \<Rightarrow> (backoff # delays, e)))"

text \<open>
  The command-line options that the send loop reads: \<^verbatim>\<open>--ack\<close> and
  \<^verbatim>\<open>--reconnect-backoff\<close>. There is no option for the ceiling: both calls in \<^verbatim>\<open>main\<close> are
  \<^verbatim>\<open>connect_with_backoff(args.host, args.port, initial_backoff=args.reconnect_backoff)\<close>,
  which leaves \<^verbatim>\<open>max_backoff\<close> at its default \<^verbatim>\<open>60.0\<close>.
\<close>

record args =
  ack :: bool
  reconnect_backoff :: rat

definition main_connect :: "args \<Rightarrow> attempt list \<Rightarrow> rat list \<times> connect_end" where
  "main_connect a net = connect_with_backoff (reconnect_backoff a) 60 net"

subsection \<open>Sending a batch\<close>

text \<open>
  What the send loop does is recorded as a trace: every call of \<^verbatim>\<open>send_frame\<close> with its
  document, every \<^verbatim>\<open>sock.close()\<close>, every delay slept while reconnecting, and every
  document given up after a failed resend.
\<close>

datatype 'f event = Sent "'f pyval" | SockClosed | Slept rat | Skipped "'f pyval"

record 'f client =
  sock :: csock
  net :: "attempt list"
  sent_total :: nat
  trace :: "'f event list"

definition send_frame :: "'f runtime \<Rightarrow> csock \<Rightarrow> 'f pyval \<Rightarrow> exn + csock" where
  "send_frame rt sk obj =
     (case encode_frame (json_dumps rt) obj of
        Inl e \<Rightarrow> Inl e
      | Inr bytes \<Rightarrow>
          if accepts sk = 0 then Inl (OSError ''Broken pipe'')
          else Inr (sk\<lparr>accepts := accepts sk - 1\<rparr>))"

text \<open>\<^verbatim>\<open>ack.get("status")\<close>: only a dict has \<^verbatim>\<open>get\<close>.\<close>

fun get_status :: "'f pyval \<Rightarrow> exn + 'f pyval" where
  "get_status (PDict kvs) = Inr (case map_of kvs ''status'' of None \<Rightarrow> PNone | Some v \<Rightarrow> v)"
| "get_status _ = Inl (AttributeError ''object has no attribute get'')"

text \<open>
  The body of either \<^verbatim>\<open>try\<close> block of the send loop:
  \<^verbatim>\<open>
    send_frame(sock, doc)
    if args.ack:
        ack = recv_frame(sock)
        if ack.get("status") != "ok": print(...)     # first attempt only
    sent_total += 1
  \<close>
  \<open>Some e\<close> is the exception that left the block.
\<close>

definition attempt_send :: "'f runtime \<Rightarrow> args \<Rightarrow> bool \<Rightarrow> 'f client \<Rightarrow> 'f pyval \<Rightarrow> exn option \<times> 'f client" where
  "attempt_send rt a first cl d =
     (let cl1 = cl\<lparr>trace := trace cl @ [Sent d]\<rparr>
      in case send_frame rt (sock cl1) d of
           Inl e \<Rightarrow> (Some e, cl1)
         | Inr sk \<Rightarrow>
             (let cl2 = cl1\<lparr>sock := sk\<rparr>
              in if ack a
                 then (case recv_frame (json_loads rt) (pending sk) of
                         Inl e \<Rightarrow> (Some e, cl2)
                       | Inr (reply, s') \<Rightarrow>
                           (let cl3 = cl2\<lparr>sock := sk\<lparr>pending := s'\<rparr>\<rparr>
                            in if first
                               then (case get_status reply of
                                       Inl e \<Rightarrow> (Some e, cl3)
                                     | Inr v \<Rightarrow> (None, cl3\<lparr>sent_total := Suc (sent_total cl3)\<rparr>))
                               else (None, cl3\<lparr>sent_total := Suc (sent_total cl3)\<rparr>)))
                 else (None, cl2\<lparr>sent_total := Suc (sent_total cl2)\<rparr>)))"

text \<open>\<^verbatim>\<open>except (ConnectionError, OSError)\<close>: the exceptions of the first attempt that lead to a reconnect.\<close>

fun is_oserror :: "exn \<Rightarrow> bool" where
  "is_oserror (ConnectionError m) = True"
| "is_oserror (OSError m) = True"
| "is_oserror _ = False"

text \<open>
  One turn of \<^verbatim>\<open>for doc in batch_to_send\<close>:
  \<^verbatim>\<open>
    try:
        <attempt, first>
    except (ConnectionError, OSError) as e:
        sock.close()
        sock = connect_with_backoff(args.host, args.port, initial_backoff=args.reconnect_backoff)
        try:
            <attempt, resend>
        except Exception as e2:
            print("resend failed ... Skipping this doc.")
            continue
  \<close>
  \<open>Inr\<close> goes on with the next document. \<open>Inl\<close> leaves \<^verbatim>\<open>main\<close>: an exception that
  neither clause catches (\<open>Crashed\<close>), or a reconnect that never returns within the
  script (\<open>Hung\<close>).
\<close>

datatype halt = Crashed exn | Hung

definition send_doc :: "'f runtime \<Rightarrow> args \<Rightarrow> 'f client \<Rightarrow> 'f pyval \<Rightarrow> (halt \<times> 'f client) + 'f client" where
  "send_doc rt a cl d =
     (case attempt_send rt a True cl d of
        (None, cl1) \<Rightarrow> Inr cl1
      | (Some e, cl1) \<Rightarrow>
          if is_oserror e
          then (let cl2 = cl1\<lparr>trace := trace cl1 @ [SockClosed]\<rparr>
                in case main_connect a (net cl2) of
                     (delays, Connected sk rest) \<Rightarrow>
                       (case attempt_send rt a False
                               (cl2\<lparr>sock := sk, net := rest, trace := trace cl2 @ map Slept delays\<rparr>) d of
                          (None, cl3) \<Rightarrow> Inr cl3
                        | (Some e2, cl3) \<Rightarrow> Inr (cl3\<lparr>trace := trace cl3 @ [Skipped d]\<rparr>))
                   | (delays, SleepRaised e') \<Rightarrow>
                       Inl (Crashed e', cl2\<lparr>trace := trace cl2 @ map Slept delays\<rparr>)
                   | (delays, StillRetrying) \<Rightarrow>
                       Inl (Hung, cl2\<lparr>net := [], trace := trace cl2 @ map Slept delays\<rparr>))
          else Inl (Crashed e, cl1))"

fun send_batch :: "'f runtime \<Rightarrow> args \<Rightarrow> 'f client \<Rightarrow> 'f pyval list \<Rightarrow> (halt \<times> 'f client) + 'f client" where
  "send_batch rt a cl [] = Inr cl"
| "send_batch rt a cl (d # ds) =
     (case send_doc rt a cl d of
        Inl r \<Rightarrow> Inl r
      | Inr cl' \<Rightarrow> send_batch rt a cl' ds)"


subsection \<open>Backoff\<close>

lemma min_double:
  assumes c: "0 \<le> c"
  shows "min c (2 ^ j * min c (x * 2)) = min c (2 ^ Suc j * (x::rat))"
proof (cases "c \<le> x * 2")
  case True
  have one: "(1::rat) \<le> 2 ^ j" by simp
  have le: "c \<le> 2 ^ j * c" using mult_right_mono[OF one c] by simp
  have "2 ^ j * c \<le> 2 ^ j * (x * 2)" using True by (intro mult_left_mono) simp_all
  also have "2 ^ j * (x * 2) = 2 ^ Suc j * x" by simp
  finally have "c \<le> 2 ^ Suc j * x" using le by (rule order_trans[rotated])
  with True le show ?thesis by (simp add: min_def)
next
  case False
  then have "min c (x * 2) = x * 2" by (simp add: min_def)
  then show ?thesis by (simp add: mult.assoc mult.commute)
qed

lemma backoff_delays:
  "0 \<le> x \<Longrightarrow> x \<le> c \<Longrightarrow>
   connect_with_backoff x c (replicate J Refused @ Accepted sk # rest)
     = (map (\<lambda>j. min c (2 ^ j * x)) [0..<J], Connected sk rest)"
proof (induction J arbitrary: x)
  case 0
  then show ?case by simp
next
  case (Suc J)
  from Suc.prems have c: "0 \<le> c" by simp
  have x2: "0 \<le> min c (x * 2)" "min c (x * 2) \<le> c" using Suc.prems by simp_all
  have m: "map (\<lambda>j. min c (2 ^ j * x)) [0..<Suc J]
        = x # map (\<lambda>j. min c (2 ^ j * min c (x * 2))) [0..<J]"
    using Suc.prems by (simp add: map_upt_Suc min_double[OF c] del: upt_Suc)
  show ?case
    using Suc.prems Suc.IH[OF x2] unfolding m by simp
qed

definition idle_sock :: csock where
  "idle_sock = \<lparr>pending = [], accepts = 0\<rparr>"


text \<open>
  Claim C6 (backoff growth), as amended. For an initial backoff \<open>b\<close> and a ceiling \<open>c\<close>
  with \<open>0 \<le> b \<le> c\<close>, after \<open>J\<close> refused attempts and an accepted one
  \<^verbatim>\<open>connect_with_backoff\<close> has slept \<open>min c (2^j * b)\<close> for \<open>j = 0, ..., J - 1\<close>, in
  this order, and returns the socket. The initial backoff is the option
  \<^verbatim>\<open>--reconnect-backoff\<close>; the ceiling is not an option: \<^verbatim>\<open>main\<close> always runs with the
  default \<open>60\<close>.
\<close>

theorem backoff_growth:
  assumes "0 \<le> b" and "b \<le> c"
  shows "connect_with_backoff b c (replicate J Refused @ Accepted sk # rest)
           = (map (\<lambda>j. min c (2 ^ j * b)) [0..<J], Connected sk rest)
         \<and> (b \<le> 60 \<longrightarrow>
              main_connect (a\<lparr>reconnect_backoff := b\<rparr>) (replicate J Refused @ Accepted sk # rest)
                = (map (\<lambda>j. min 60 (2 ^ j * b)) [0..<J], Connected sk rest))"
  using backoff_delays[OF assms, of J sk rest] backoff_delays[OF assms(1), of 60 J sk rest]
  by (simp add: main_connect_def)


theorem backoff_growth_witness:
  "(0::rat) \<le> 1 \<and> (1::rat) \<le> 60
   \<and> connect_with_backoff 1 60 (replicate 8 Refused @ Accepted idle_sock # [])
       = ([1, 2, 4, 8, 16, 32, 60, 60], Connected idle_sock [])
   \<and> main_connect \<lparr>ack = True, reconnect_backoff = 1\<rparr> (replicate 8 Refused @ Accepted idle_sock # [])
       = ([1, 2, 4, 8, 16, 32, 60, 60], Connected idle_sock [])"
proof -
  have 1: "(0::rat) \<le> 1" and 2: "(1::rat) \<le> 60" by simp_all
  have u: "[0..<8] = [0, 1, 2, 3, 4, 5, 6, 7]" by (simp add: upt_rec)
  from backoff_growth[OF 1 2, of 8 idle_sock "[]" "\<lparr>ack = True, reconnect_backoff = 1\<rparr>"]
  show ?thesis by (simp add: u)
qed


text \<open>
  The loop sleeps before it applies the ceiling, so an initial backoff above the ceiling is
  slept as it is: with \<open>b = 100\<close> and \<open>c = 60\<close> the first delay is \<open>100\<close>, not
  \<open>min 60 100\<close>.
\<close>

theorem first_delay_not_capped:
  "connect_with_backoff 100 60 [Refused, Accepted idle_sock] = ([100], Connected idle_sock [])
   \<and> min 60 (2 ^ 0 * 100) = (60 :: rat)
   \<and> (100 :: rat) \<noteq> 60"
  by simp


subsection \<open>Resending\<close>

lemma attempt_send_trace:
  "trace (snd (attempt_send rt a f cl d)) = trace cl @ [Sent d]
   \<and> net (snd (attempt_send rt a f cl d)) = net cl"
  by (simp add: attempt_send_def Let_def split: sum.splits prod.splits)

definition producer_at :: "csock \<Rightarrow> attempt list \<Rightarrow> rat client" where
  "producer_at sk n = \<lparr>sock = sk, net = n, sent_total = 0, trace = []\<rparr>"

definition with_ack :: args where
  "with_ack = \<lparr>ack = True, reconnect_backoff = 1\<rparr>"

lemma small_send: "send_frame small_runtime \<lparr>pending = s, accepts = Suc n\<rparr> v
    = Inr \<lparr>pending = s, accepts = n\<rparr>"
  by (simp add: send_frame_def encode_frame_def pack_I_def small_runtime_def)


text \<open>
  Claim C7 (at most two attempts), as amended. When the first attempt at a document leaves
  its \<^verbatim>\<open>try\<close> block with a \<^verbatim>\<open>ConnectionError\<close> or another \<^verbatim>\<open>OSError\<close> and the reconnect
  returns a socket, the loop has closed the old socket, slept the backoff delays, sent the
  same document once more on the new socket, and goes on with the next document whether
  that resend succeeded or not (a failed resend is logged as skipped): the document is
  sent exactly twice.
\<close>

theorem resend_once_then_abandon:
  assumes first: "attempt_send rt a True cl d = (Some e, cl1)"
    and caught: "is_oserror e"
    and reconn: "main_connect a (net cl) = (delays, Connected sk rest)"
  shows "\<exists>cl2 r cl3 cl'.
           sock cl2 = sk \<and> attempt_send rt a False cl2 d = (r, cl3)
           \<and> send_doc rt a cl d = Inr cl'
           \<and> trace cl' = trace cl @ [Sent d, SockClosed] @ map Slept delays @ [Sent d]
                           @ (case r of None \<Rightarrow> [] | Some e2 \<Rightarrow> [Skipped d])
           \<and> net cl' = rest
           \<and> send_batch rt a cl (d # ds) = send_batch rt a cl' ds"
proof -
  from attempt_send_trace[of rt a True cl d] first
  have t1: "trace cl1 = trace cl @ [Sent d]" and n1: "net cl1 = net cl" by simp_all
  define cl2 where "cl2 = cl1\<lparr>trace := trace cl1 @ [SockClosed], sock := sk, net := rest,
                               trace := (trace cl1 @ [SockClosed]) @ map Slept delays\<rparr>"
  obtain r cl3 where r: "attempt_send rt a False cl2 d = (r, cl3)" by (cases "attempt_send rt a False cl2 d")
  from attempt_send_trace[of rt a False cl2 d] r
  have t3: "trace cl3 = trace cl2 @ [Sent d]" and n3: "net cl3 = net cl2" by simp_all
  define cl' where "cl' = (case r of None \<Rightarrow> cl3 | Some e2 \<Rightarrow> cl3\<lparr>trace := trace cl3 @ [Skipped d]\<rparr>)"
  have sd: "send_doc rt a cl d = Inr cl'"
    using first caught reconn r n1
    by (simp add: send_doc_def Let_def cl2_def cl'_def split: option.splits)
  have tr: "trace cl' = trace cl @ [Sent d, SockClosed] @ map Slept delays @ [Sent d]
                           @ (case r of None \<Rightarrow> [] | Some e2 \<Rightarrow> [Skipped d])"
    using t1 t3 by (simp add: cl'_def cl2_def split: option.splits)
  have nt: "net cl' = rest" using n3 by (simp add: cl'_def cl2_def split: option.splits)
  have sk: "sock cl2 = sk" by (simp add: cl2_def)
  have sb: "send_batch rt a cl (d # ds) = send_batch rt a cl' ds" using sd by simp
  from sk r sd tr nt sb show ?thesis by blast
qed

theorem resend_once_then_abandon_witness:
  "attempt_send small_runtime with_ack True
      (producer_at \<lparr>pending = [], accepts = 1\<rparr>
         [Refused, Accepted \<lparr>pending = [[0, 0, 0, 2, 123, 125]], accepts = 1\<rparr>]) (PDict [])
     = (Some (ConnectionError ''connection closed by server''),
        \<lparr>sock = \<lparr>pending = [], accepts = 0\<rparr>,
         net = [Refused, Accepted \<lparr>pending = [[0, 0, 0, 2, 123, 125]], accepts = 1\<rparr>],
         sent_total = 0, trace = [Sent (PDict [])]\<rparr>)
   \<and> is_oserror (ConnectionError ''connection closed by server'')
   \<and> main_connect with_ack
        (net (producer_at \<lparr>pending = [], accepts = 1\<rparr>
               [Refused, Accepted \<lparr>pending = [[0, 0, 0, 2, 123, 125]], accepts = 1\<rparr>]))
       = ([1], Connected \<lparr>pending = [[0, 0, 0, 2, 123, 125]], accepts = 1\<rparr> [])
   \<and> (\<exists>cl2 r cl3 cl'.
         sock cl2 = \<lparr>pending = [[0, 0, 0, 2, 123, 125]], accepts = 1\<rparr>
         \<and> attempt_send small_runtime with_ack False cl2 (PDict []) = (r, cl3)
         \<and> send_doc small_runtime with_ack
              (producer_at \<lparr>pending = [], accepts = 1\<rparr>
                 [Refused, Accepted \<lparr>pending = [[0, 0, 0, 2, 123, 125]], accepts = 1\<rparr>]) (PDict [])
             = Inr cl'
         \<and> trace cl' = [Sent (PDict []), SockClosed, Slept 1, Sent (PDict [])]
                          @ (case r of None \<Rightarrow> [] | Some e2 \<Rightarrow> [Skipped (PDict [])])
         \<and> net cl' = [])"
proof -
  let ?sk1 = "\<lparr>pending = [[0, 0, 0, 2, 123, 125]], accepts = 1\<rparr>"
  let ?cl = "producer_at \<lparr>pending = [], accepts = 1\<rparr> [Refused, Accepted ?sk1]"
  have 1: "attempt_send small_runtime with_ack True ?cl (PDict [])
     = (Some (ConnectionError ''connection closed by server''),
        \<lparr>sock = \<lparr>pending = [], accepts = 0\<rparr>, net = [Refused, Accepted ?sk1],
         sent_total = 0, trace = [Sent (PDict [])]\<rparr>)"
    using small_send[of "[]" 0 "PDict []"]
    by (simp add: attempt_send_def producer_at_def with_ack_def Let_def recv_frame_def)
  have 2: "is_oserror (ConnectionError ''connection closed by server'')" by simp
  have 3: "main_connect with_ack (net ?cl) = ([1], Connected ?sk1 [])"
    by (simp add: main_connect_def with_ack_def producer_at_def)
  from resend_once_then_abandon[OF 1 2 3, of "[]"] obtain cl2 r cl3 cl' where
    a: "sock cl2 = ?sk1"
    and b: "attempt_send small_runtime with_ack False cl2 (PDict []) = (r, cl3)"
    and c: "send_doc small_runtime with_ack ?cl (PDict []) = Inr cl'"
    and d: "trace cl' = trace ?cl @ [Sent (PDict []), SockClosed] @ map Slept [1] @ [Sent (PDict [])]
                           @ (case r of None \<Rightarrow> [] | Some e2 \<Rightarrow> [Skipped (PDict [])])"
    and e: "net cl' = []"
    by blast
  from d have d': "trace cl' = [Sent (PDict []), SockClosed, Slept 1, Sent (PDict [])]
                          @ (case r of None \<Rightarrow> [] | Some e2 \<Rightarrow> [Skipped (PDict [])])"
    by (simp add: producer_at_def)
  from a b c d' e have "\<exists>cl2 r cl3 cl'.
         sock cl2 = ?sk1
         \<and> attempt_send small_runtime with_ack False cl2 (PDict []) = (r, cl3)
         \<and> send_doc small_runtime with_ack ?cl (PDict []) = Inr cl'
         \<and> trace cl' = [Sent (PDict []), SockClosed, Slept 1, Sent (PDict [])]
                          @ (case r of None \<Rightarrow> [] | Some e2 \<Rightarrow> [Skipped (PDict [])])
         \<and> net cl' = []"
    by blast
  with 1 2 3 show ?thesis by blast
qed


text \<open>
  Other failures of the first attempt are not caught by
  \<^verbatim>\<open>except (ConnectionError, OSError)\<close>: they leave the send loop and end \<^verbatim>\<open>main\<close>
  (through its \<^verbatim>\<open>finally\<close>) with no reconnect and no resend. Two such failures of the
  ack receive: an acknowledgement that is not JSON (\<^verbatim>\<open>json.loads\<close> raises
  \<^verbatim>\<open>ValueError\<close>), and a connection closed after two header bytes (\<^verbatim>\<open>recv_frame\<close>
  raises \<^verbatim>\<open>struct.error\<close>).
\<close>

theorem undecodable_ack_not_retried:
  "send_doc small_runtime with_ack
      (producer_at \<lparr>pending = [[0, 0, 0, 1, 120]], accepts = 1\<rparr> [Accepted idle_sock]) (PDict [])
     = Inl (Crashed (ValueError ''Expecting value''),
            \<lparr>sock = \<lparr>pending = [[0, 0, 0, 1, 120]], accepts = 0\<rparr>,
             net = [Accepted idle_sock], sent_total = 0, trace = [Sent (PDict [])]\<rparr>)
   \<and> send_doc small_runtime with_ack
      (producer_at \<lparr>pending = [[0, 0]], accepts = 1\<rparr> [Accepted idle_sock]) (PDict [])
     = Inl (Crashed StructError,
            \<lparr>sock = \<lparr>pending = [[0, 0]], accepts = 0\<rparr>,
             net = [Accepted idle_sock], sent_total = 0, trace = [Sent (PDict [])]\<rparr>)"
proof -
  have r1: "recv_frame (json_loads small_runtime) [[0, 0, 0, 1, 120]]
              = Inl (ValueError ''Expecting value'')"
    by (simp add: recv_frame_def Let_def read_loop.simps small_runtime_def)
  have r2: "recv_frame (json_loads small_runtime) [[0, 0]] = Inl StructError"
    by (simp add: recv_frame_def Let_def)
  show ?thesis
    using small_send[of "[[0, 0, 0, 1, 120]]" 0 "PDict []"] small_send[of "[[0, 0]]" 0 "PDict []"]
    by (simp add: send_doc_def attempt_send_def producer_at_def with_ack_def Let_def r1 r2)
qed


section \<open>Broadcasting change events to subscribers\<close>

text \<open>
  consumer_tcp_threaded.py keeps one \<^verbatim>\<open>queue.Queue(maxsize=200)\<close> per connected SSE
  client in the set \<^verbatim>\<open>clients\<close>. A queue is its bound and its pending items;
  \<^verbatim>\<open>put_nowait\<close> raises \<^verbatim>\<open>queue.Full\<close> when the bound is positive and reached. The
  registry is the list \<^verbatim>\<open>list(clients)\<close> that the broadcast iterates over, a queue being
  identified by its position; \<open>sse_events\<close> is the registration at the head of the
  endpoint (\<^verbatim>\<open>clients.add(q)\<close> with a new empty queue). The lock around the loop is not
  modelled: the model is one thread's view.
  \<^verbatim>\<open>
    for q in list(clients):
        try:
            q.put_nowait(data_str)
        except Exception:
            pass
  \<close>
\<close>

record queue =
  maxsize :: int
  items :: "string list"

datatype queue_error = Full

definition full :: "queue \<Rightarrow> bool" where
  "full q = (0 < maxsize q \<and> maxsize q \<le> int (length (items q)))"

definition put_nowait :: "queue \<Rightarrow> string \<Rightarrow> queue_error + queue" where
  "put_nowait q x = (if full q then Inl Full else Inr (q\<lparr>items := items q @ [x]\<rparr>))"

fun broadcast_to_clients :: "string \<Rightarrow> queue list \<Rightarrow> queue list" where
  "broadcast_to_clients data_str [] = []"
| "broadcast_to_clients data_str (q # qs) =
     (case put_nowait q data_str of
        Inl e \<Rightarrow> q
      | Inr q' \<Rightarrow> q') # broadcast_to_clients data_str qs"

definition sse_events :: "queue list \<Rightarrow> queue list" where
  "sse_events clients = clients @ [\<lparr>maxsize = 200, items = []\<rparr>]"

text \<open>
  Claim C8 (fan-out with drop on full). A broadcast returns, with the same subscribers,
  each queue that was not full extended by the message at its end and each full queue
  unchanged: the \<^verbatim>\<open>queue.Full\<close> of one subscriber is swallowed and the loop goes on to the
  next. In particular after \<open>K\<close> registrations one broadcast leaves the message in all
  \<open>K\<close> queues.
\<close>

theorem broadcast_drop_on_full:
  "broadcast_to_clients m qs
     = map (\<lambda>q. if full q then q else q\<lparr>items := items q @ [m]\<rparr>) qs
   \<and> length (broadcast_to_clients m qs) = length qs
   \<and> broadcast_to_clients m ((sse_events ^^ K) [])
       = replicate K \<lparr>maxsize = 200, items = [m]\<rparr>"
proof -
  have 1: "broadcast_to_clients m qs
     = map (\<lambda>q. if full q then q else q\<lparr>items := items q @ [m]\<rparr>) qs" for qs
    by (induction qs) (simp_all add: put_nowait_def)
  have 2: "(sse_events ^^ K) [] = replicate K \<lparr>maxsize = 200, items = []\<rparr>"
    by (induction K) (simp_all add: sse_events_def replicate_append_same)
  show ?thesis by (simp add: 1 2 full_def)
qed

section \<open>The two enrichment functions compared\<close>

text \<open>
  A value is numeric text when it is a string that \<^verbatim>\<open>to_number\<close> converts to a number.
\<close>

definition numeric_text :: "'f runtime \<Rightarrow> 'f pyval \<Rightarrow> bool" where
  "numeric_text rt v = (case v of PStr t \<Rightarrow> to_number rt (PStr t) \<noteq> None | _ \<Rightarrow> False)"

lemma to_number_plain:
  "\<not> numeric_text rt v \<Longrightarrow> to_number rt v = (if is_int_or_float v then Some v else None)"
  by (cases v) (simp_all add: numeric_text_def)

lemma collect_same:
  "\<forall>(k, v)\<in>set d. startswith_gen k \<longrightarrow> \<not> numeric_text rt v \<Longrightarrow>
   List.map_filter (\<lambda>(k, v). if startswith_gen k then to_number rt v else None) d
     = map snd (filter (\<lambda>(k, v). startswith_gen k \<and> is_int_or_float v) d)"
proof (induction d)
  case Nil
  then show ?case by (simp add: List.map_filter_simps)
next
  case (Cons kv d)
  obtain k v where kv: "kv = (k, v)" by (cases kv)
  from Cons.prems have rest: "\<forall>(k, v)\<in>set d. startswith_gen k \<longrightarrow> \<not> numeric_text rt v"
    and here: "startswith_gen k \<longrightarrow> \<not> numeric_text rt v"
    by (simp_all add: kv)
  show ?case
    using Cons.IH[OF rest] here
    by (simp add: kv List.map_filter_simps to_number_plain)
qed

text \<open>
  Claim C9 (the two \<^verbatim>\<open>process_document\<close> agree), as amended. On every document in which
  no value under a \<^verbatim>\<open>gen_\<close> key is numeric text, \<^verbatim>\<open>process_document\<close> of tcp/consumer.py
  and of consumer_tcp.py return the same summary (or raise the same exception).
\<close>

theorem enrichment_agrees_without_numeric_text:
  assumes "\<forall>(k, v)\<in>set d. startswith_gen k \<longrightarrow> \<not> numeric_text rt v"
  shows "process_document_poll rt d = process_document rt d"
  using collect_same[OF assms] by (simp add: process_document_poll_def process_document_def)

theorem enrichment_agrees_without_numeric_text_witness:
  "startswith_gen ''gen_1'' \<and> \<not> numeric_text small_runtime (PInt 3)
   \<and> startswith_gen ''gen_2'' \<and> \<not> numeric_text small_runtime (PStr ''abc'')
   \<and> \<not> startswith_gen ''col1''
   \<and> process_document_poll small_runtime
        [(''gen_1'', PInt 3), (''gen_2'', PStr ''abc''), (''col1'', PStr ''5'')]
      = process_document small_runtime
        [(''gen_1'', PInt 3), (''gen_2'', PStr ''abc''), (''col1'', PStr ''5'')]
   \<and> process_document small_runtime
        [(''gen_1'', PInt 3), (''gen_2'', PStr ''abc''), (''col1'', PStr ''5'')]
      = Inr (PDict [(''numeric_count'', PInt 1), (''numeric_sum'', PInt 3),
                    (''numeric_avg'', PFloat 3)])"
proof -
  let ?d = "[(''gen_1'', PInt 3), (''gen_2'', PStr ''abc''), (''col1'', PStr ''5'')] :: rat doc"
  have 1: "\<forall>(k, v)\<in>set ?d. startswith_gen k \<longrightarrow> \<not> numeric_text small_runtime v"
    by (simp add: startswith_gen_def numeric_text_def small_runtime_def digits_value_def
                  py_isspace_def)
  have 2: "process_document small_runtime ?d
      = Inr (PDict [(''numeric_count'', PInt 1), (''numeric_sum'', PInt 3),
                    (''numeric_avg'', PFloat 3)])"
    by (simp add: process_document_def summarise_def startswith_gen_def small_runtime_def)
  have 3: "startswith_gen ''gen_1'' \<and> \<not> numeric_text small_runtime (PInt 3)
      \<and> startswith_gen ''gen_2'' \<and> \<not> numeric_text small_runtime (PStr ''abc'')
      \<and> \<not> startswith_gen ''col1''"
    by (simp add: startswith_gen_def numeric_text_def small_runtime_def digits_value_def
                  py_isspace_def)
  from enrichment_agrees_without_numeric_text[OF 1] 2 3 show ?thesis by blast
qed

text \<open>
  On numeric text they differ: for \<^verbatim>\<open>{"gen_1": "5"}\<close> consumer_tcp.py counts nothing, while
  tcp/consumer.py converts the string with \<^verbatim>\<open>int("5")\<close> and counts one number.
\<close>

theorem numeric_string_counted_by_one_only:
  "process_document small_runtime [(''gen_1'', PStr ''5'')]
     = Inr (PDict [(''numeric_count'', PInt 0), (''numeric_sum'', PInt 0),
                   (''numeric_avg'', PNone)])
   \<and> process_document_poll small_runtime [(''gen_1'', PStr ''5'')]
     = Inr (PDict [(''numeric_count'', PInt 1), (''numeric_sum'', PInt 5),
                   (''numeric_avg'', PFloat 5)])"
  by (simp add: process_document_def process_document_poll_def summarise_def startswith_gen_def
                small_runtime_def digits_value_def py_isspace_def List.map_filter_simps)

end
